theory Spec2Isabelle
  imports Complex_Main "HOL-Library.Word"
begin

section \<open>Weighted goal-region samplers: the data model\<close>

text \<open>
  The two classes \<open>WeightedGoalRegionSamples\<close>
  (\<^verbatim>\<open>detail/weighted_goal_region_samples.cpp\<close>) and \<open>WeightedGoalRegionSampler\<close>
  (\<^verbatim>\<open>modified_planners/weighted_goal_region_sampler.cpp\<close>) derive from OMPL's
  \<open>GoalStates\<close> and keep a \<open>BinaryHeap\<close> of weighted goals next to the inherited list of
  goal states. A background thread fills the list from an injected sampler function; the
  planner draws goals and reports back through \<open>penalizeWeightedGoal\<close> and
  \<open>rewardWeightedGoal\<close>.

  Conventions of the embedding.
  \<^item> A member \<open>name_\<close> of the C++ classes is the field \<open>name\<close>: a name cannot end
    with an underscore here.
  \<^item> A planner state (\<open>State*\<close>) is a value of the type parameter \<open>'a\<close>.
  \<^item> \<open>double\<close> weights and distances are real numbers: in the functions of the two
    classes rounding, infinities and NaN are not modelled, and a division by zero, an
    infinity in C++, is 0. The only one arises in \<open>penalizeWeightedGoal\<close> at the weight
    \<open>-1\<close>; weights are meant to lie in \<open>[0, 1]\<close>. The penalty of line 259 as binary64
    arithmetic evaluates it is \<open>penalty_binary64\<close>.
  \<^item> \<open>unsigned int\<close> counters are 32-bit words, so \<open>++\<close> and \<open>+= 10\<close> wrap around.
  \<^item> A heap element (\<open>BinaryHeap::Element*\<close>) is named by a natural number; the
    \<open>WeightedGoal\<close> object that the element's \<open>data\<close> pointer refers to carries the same
    name, and \<open>heap_data\<close> maps the name of a live element to the fields of that object.
    A null or dangling pointer has no entry; dereferencing it is the error
    \<open>InvalidPointer\<close>. The exception \<open>"There are no goals to sample"\<close> is \<open>EmptyRegion\<close>.
  \<^item> The mutex, the accesses to the two shared containers (one event for each
    statement that reads or writes the list of goal states, the queue or the data of a
    heap element), the calls of the injected sampler and of the new-state callback are
    recorded, in program order, in \<open>trace\<close>.
  \<^item> The space information and the sampler are parameters. The sampler receives the
    object and yields its candidates; it does not change the object.
  \<^item> The background thread is a step machine: \<open>thread_pc\<close> says where the thread
    function stands, and one step runs it up to the next head of one of its loops. Calls
    from other threads come between two steps.
\<close>

datatype error = EmptyRegion | OutOfRange | InvalidPointer

datatype resource = GoalCollection | WeightQueue

datatype 'a event =
    Acquire | Release
  | Read resource | Write resource
  | SamplerCall | Callback 'a | Warn | GrowRoadmap

datatype thread_pc = NoThread | AtEntry | WaitForSetup | InLoop | Returned

record 'a WeightedGoal =
  state :: 'a
  weight :: real
  heap_element :: "nat option"

record 'a SpaceInformation =
  isSetup :: bool
  satisfiesBounds :: "'a \<Rightarrow> bool"
  isValid :: "'a \<Rightarrow> bool"
  distance :: "'a \<Rightarrow> 'a \<Rightarrow> real"

record 'a samples_state =
  states :: "'a list"
  samplePosition :: nat
  vector :: "nat list"
  heap_data :: "nat \<Rightarrow> 'a WeightedGoal option"
  terminateSamplingThread :: bool
  samplingThread :: bool
  samplingAttempts :: "32 word"
  minDist :: real
  max_sampled_goals :: "32 word"
  sample_goals :: bool
  num_sampled_goals :: "32 word"
  callback :: bool
  thread_pc :: thread_pc
  trace :: "'a event list"

text \<open>
  \<open>BinaryHeap::update\<close> restores the heap order after a weight has changed. The heap and
  its comparison \<open>WeightedGoalCompare\<close> are not part of the two source files, so the new
  arrangement of the array is a parameter: it receives the weights of the live elements,
  the updated element and the current array.
\<close>

type_synonym heap_order = "(nat \<Rightarrow> real option) \<Rightarrow> nat \<Rightarrow> nat list \<Rightarrow> nat list"

subsection \<open>The mutex and the trace\<close>

definition emit :: "'a event \<Rightarrow> ('a, 'z) samples_state_scheme \<Rightarrow> ('a, 'z) samples_state_scheme" where
  "emit e s = s\<lparr>trace := trace s @ [e]\<rparr>"

definition lock_guard :: "('a, 'z) samples_state_scheme \<Rightarrow> ('a, 'z) samples_state_scheme" where
  "lock_guard s = emit Acquire s"

definition unlock :: "('a, 'z) samples_state_scheme \<Rightarrow> ('a, 'z) samples_state_scheme" where
  "unlock s = emit Release s"

text \<open>
  \<open>guarded held es\<close>: every access to a shared container recorded in \<open>es\<close> happens while
  the mutex is held, when the trace starts with the mutex held or not as \<open>held\<close> says.
\<close>

fun guarded :: "bool \<Rightarrow> 'a event list \<Rightarrow> bool" where
  "guarded held [] = True"
| "guarded held (Acquire # es) = guarded True es"
| "guarded held (Release # es) = guarded False es"
| "guarded held (Read r # es) = (held \<and> guarded held es)"
| "guarded held (Write r # es) = (held \<and> guarded held es)"
| "guarded held (e # es) = guarded held es"

fun held_after :: "bool \<Rightarrow> 'a event list \<Rightarrow> bool" where
  "held_after held [] = held"
| "held_after held (Acquire # es) = held_after True es"
| "held_after held (Release # es) = held_after False es"
| "held_after held (e # es) = held_after held es"

subsection \<open>The base class \<open>GoalStates\<close> (OMPL)\<close>

definition GoalStates_addState :: "'a \<Rightarrow> ('a, 'z) samples_state_scheme \<Rightarrow> ('a, 'z) samples_state_scheme" where
  "GoalStates_addState st s = emit (Write GoalCollection) (s\<lparr>states := states s @ [st]\<rparr>)"

definition GoalStates_clear :: "('a, 'z) samples_state_scheme \<Rightarrow> ('a, 'z) samples_state_scheme" where
  "GoalStates_clear s = emit (Write GoalCollection) (s\<lparr>states := [], samplePosition := 0\<rparr>)"

text \<open>The distance to the nearest goal state; \<open>None\<close> is the infinity of an empty list.\<close>

definition GoalStates_distanceGoal ::
  "'a SpaceInformation \<Rightarrow> 'a \<Rightarrow> ('a, 'z) samples_state_scheme \<Rightarrow> real option \<times> ('a, 'z) samples_state_scheme" where
  "GoalStates_distanceGoal si st s =
     (fold (\<lambda>x dist. let d = distance si st x in
                     (case dist of None \<Rightarrow> Some d | Some m \<Rightarrow> if d < m then Some d else Some m))
           (states s) None,
      emit (Read GoalCollection) s)"

fun exceeds :: "real option \<Rightarrow> real \<Rightarrow> bool" where
  "exceeds None m = True"
| "exceeds (Some d) m = (d > m)"

definition GoalStates_sampleGoal ::
  "('a, 'z) samples_state_scheme \<Rightarrow> error + ('a \<times> ('a, 'z) samples_state_scheme)" where
  "GoalStates_sampleGoal s =
     (if states s = [] then Inl EmptyRegion
      else if samplePosition s < length (states s)
      then Inr (states s ! samplePosition s,
                emit (Write GoalCollection)
                  (s\<lparr>samplePosition := (samplePosition s + 1) mod length (states s)\<rparr>))
      else Inl InvalidPointer)"

definition GoalStates_getState ::
  "nat \<Rightarrow> ('a, 'z) samples_state_scheme \<Rightarrow> error + ('a \<times> ('a, 'z) samples_state_scheme)" where
  "GoalStates_getState index s =
     (if index \<ge> length (states s) then Inl OutOfRange
      else Inr (states s ! index, emit (Read GoalCollection) s))"

definition GoalStates_hasStates :: "('a, 'z) samples_state_scheme \<Rightarrow> bool \<times> ('a, 'z) samples_state_scheme" where
  "GoalStates_hasStates s = (states s \<noteq> [], emit (Read GoalCollection) s)"

definition GoalStates_getStateCount :: "('a, 'z) samples_state_scheme \<Rightarrow> nat \<times> ('a, 'z) samples_state_scheme" where
  "GoalStates_getStateCount s = (length (states s), emit (Read GoalCollection) s)"

definition GoalStates_maxSampleCount :: "('a, 'z) samples_state_scheme \<Rightarrow> nat \<times> ('a, 'z) samples_state_scheme" where
  "GoalStates_maxSampleCount s = (length (states s), emit (Read GoalCollection) s)"

subsection \<open>The priority queue \<open>BinaryHeap\<close> (OMPL)\<close>

definition BinaryHeap_top :: "('a, 'z) samples_state_scheme \<Rightarrow> nat option \<times> ('a, 'z) samples_state_scheme" where
  "BinaryHeap_top s =
     ((case vector s of [] \<Rightarrow> None | e # es \<Rightarrow> Some e), emit (Read WeightQueue) s)"

definition BinaryHeap_getContent :: "('a, 'z) samples_state_scheme \<Rightarrow> nat list \<times> ('a, 'z) samples_state_scheme" where
  "BinaryHeap_getContent s = (vector s, emit (Read WeightQueue) s)"

definition BinaryHeap_update ::
  "heap_order \<Rightarrow> nat \<Rightarrow> ('a, 'z) samples_state_scheme \<Rightarrow> ('a, 'z) samples_state_scheme" where
  "BinaryHeap_update upd e s =
     emit (Write WeightQueue)
       (s\<lparr>vector := upd (\<lambda>h. map_option weight (heap_data s h)) e (vector s)\<rparr>)"

definition BinaryHeap_clear :: "('a, 'z) samples_state_scheme \<Rightarrow> ('a, 'z) samples_state_scheme" where
  "BinaryHeap_clear s = emit (Write WeightQueue) (s\<lparr>vector := [], heap_data := (\<lambda>h. None)\<rparr>)"

text \<open>The assignment \<open>e->data->weight = w\<close> for a live element \<open>e\<close>.\<close>

definition set_weight :: "nat \<Rightarrow> real \<Rightarrow> ('a, 'z) samples_state_scheme \<Rightarrow> ('a, 'z) samples_state_scheme" where
  "set_weight e w s =
     emit (Write WeightQueue)
       (s\<lparr>heap_data := (heap_data s)(e := map_option (\<lambda>d. d\<lparr>weight := w\<rparr>) (heap_data s e))\<rparr>)"

section \<open>\<open>WeightedGoalRegionSamples\<close>\<close>

subsection \<open>Starting and stopping; the sampling thread\<close>

definition startSampling :: "'a samples_state \<Rightarrow> 'a samples_state" where
  "startSampling s =
     (let s1 = lock_guard s in
      unlock (if \<not> samplingThread s1
              then s1\<lparr>terminateSamplingThread := False, samplingThread := True, thread_pc := AtEntry\<rparr>
              else s1))"

definition isSampling :: "'a samples_state \<Rightarrow> bool \<times> 'a samples_state" where
  "isSampling s =
     (let s1 = lock_guard s in
      (\<not> terminateSamplingThread s1 \<and> samplingThread s1, unlock s1))"

text \<open>The \<open>for\<close> loop over the candidates of one sampler call (lines 130--146).\<close>

fun add_sampled_states ::
  "'a SpaceInformation \<Rightarrow> 'a list \<Rightarrow> bool \<times> 'a samples_state \<Rightarrow> bool \<times> 'a samples_state" where
  "add_sampled_states si [] (increase_num_sampled_goals, s) = (increase_num_sampled_goals, s)"
| "add_sampled_states si (sampled_state # rest) (increase_num_sampled_goals, s) =
     (if satisfiesBounds si sampled_state \<and> isValid si sampled_state
      then add_sampled_states si rest
             (True, unlock (GoalStates_addState sampled_state
                      (lock_guard (s\<lparr>num_sampled_goals := num_sampled_goals s + 1\<rparr>))))
      else add_sampled_states si rest (increase_num_sampled_goals, s))"

text \<open>One pass through the body of \<open>while (isSampling())\<close> (lines 121--154).\<close>

definition loop_iteration ::
  "'a SpaceInformation \<Rightarrow> ('a samples_state \<Rightarrow> 'a list) \<Rightarrow> 'a samples_state \<Rightarrow> 'a samples_state" where
  "loop_iteration si samplerFunc s =
     (if num_sampled_goals s < max_sampled_goals s
      then (let sampled_states = samplerFunc s;
                (increase_num_sampled_goals, s1) =
                   add_sampled_states si sampled_states (False, emit SamplerCall s);
                s2 = (if num_sampled_goals s1 \<ge> max_sampled_goals s1
                      then s1\<lparr>sample_goals := False\<rparr> else s1)
            in if increase_num_sampled_goals
               then s2\<lparr>samplingAttempts := samplingAttempts s2 + 1\<rparr> else s2)
      else s)"

text \<open>The end of the thread function (lines 161--164).\<close>

definition thread_epilogue :: "'a samples_state \<Rightarrow> 'a samples_state" where
  "thread_epilogue s =
     (unlock ((lock_guard s)\<lparr>terminateSamplingThread := True\<rparr>))\<lparr>thread_pc := Returned\<rparr>"

text \<open>The test \<open>if (isSampling() && samplerFunc_)\<close> (line 116) and its \<open>else\<close> branch.\<close>

definition begin_computation ::
  "('a samples_state \<Rightarrow> 'a list) option \<Rightarrow> 'a samples_state \<Rightarrow> 'a samples_state" where
  "begin_computation samplerFunc s =
     (let (sampling, s1) = isSampling s in
      if sampling \<and> samplerFunc \<noteq> None then s1\<lparr>thread_pc := InLoop\<rparr>
      else thread_epilogue (emit Warn s1))"

text \<open>
  One step of \<open>goalSamplingThread\<close>: from the entry to the first loop head, one poll of
  the wait for the space information, or one evaluation of \<open>while (isSampling())\<close> with
  the body or the exit that follows.
\<close>

definition thread_step ::
  "'a SpaceInformation \<Rightarrow> ('a samples_state \<Rightarrow> 'a list) option \<Rightarrow> 'a samples_state \<Rightarrow> 'a samples_state" where
  "thread_step si samplerFunc s =
     (case thread_pc s of
        NoThread \<Rightarrow> s
      | Returned \<Rightarrow> s
      | AtEntry \<Rightarrow>
          (let s1 = unlock (lock_guard s) in
           if \<not> isSetup si then s1\<lparr>thread_pc := WaitForSetup\<rparr>
           else begin_computation samplerFunc s1)
      | WaitForSetup \<Rightarrow>
          (if \<not> terminateSamplingThread s \<and> \<not> isSetup si then s
           else begin_computation samplerFunc s)
      | InLoop \<Rightarrow>
          (let (sampling, s1) = isSampling s in
           if sampling
           then (case samplerFunc of Some f \<Rightarrow> loop_iteration si f s1 | None \<Rightarrow> s1)
           else thread_epilogue s1))"

text \<open>
  \<open>join\<close> lets the thread function run until it has returned. Once the stop flag is set
  the thread needs at most two steps (leave the wait, or leave the loop).
\<close>

fun run_thread ::
  "nat \<Rightarrow> 'a SpaceInformation \<Rightarrow> ('a samples_state \<Rightarrow> 'a list) option \<Rightarrow> 'a samples_state \<Rightarrow> 'a samples_state" where
  "run_thread 0 si samplerFunc s = s"
| "run_thread (Suc n) si samplerFunc s =
     (if thread_pc s = Returned \<or> thread_pc s = NoThread then s
      else run_thread n si samplerFunc (thread_step si samplerFunc s))"

definition stopSampling ::
  "'a SpaceInformation \<Rightarrow> ('a samples_state \<Rightarrow> 'a list) option \<Rightarrow> 'a samples_state \<Rightarrow> 'a samples_state" where
  "stopSampling si samplerFunc s =
     (let s1 = lock_guard s;
          s2 = unlock (if \<not> terminateSamplingThread s1
                       then s1\<lparr>terminateSamplingThread := True\<rparr> else s1)
      in if samplingThread s2
         then (run_thread 2 si samplerFunc s2)\<lparr>samplingThread := False, thread_pc := NoThread\<rparr>
         else s2)"

definition WeightedGoalRegionSamples :: "32 word \<Rightarrow> bool \<Rightarrow> real \<Rightarrow> 'a samples_state" where
  "WeightedGoalRegionSamples max_goals autoStart min_dist =
     (let s = \<lparr>states = [], samplePosition = 0, vector = [], heap_data = (\<lambda>h. None),
                terminateSamplingThread = False, samplingThread = False,
                samplingAttempts = 0, minDist = min_dist,
                max_sampled_goals = max_goals, sample_goals = True,
                num_sampled_goals = 0, callback = False,
                thread_pc = NoThread, trace = []\<rparr>
      in if autoStart then startSampling s else s)"

subsection \<open>The goal store\<close>

definition clear :: "'a samples_state \<Rightarrow> 'a samples_state" where
  "clear s = unlock (BinaryHeap_clear (GoalStates_clear (lock_guard s)))"

definition distanceGoal :: "'a SpaceInformation \<Rightarrow> 'a \<Rightarrow> 'a samples_state \<Rightarrow> real option \<times> 'a samples_state" where
  "distanceGoal si st s = (let (d, s1) = GoalStates_distanceGoal si st (lock_guard s) in (d, unlock s1))"

definition sampleGoal :: "'a samples_state \<Rightarrow> error + ('a \<times> 'a samples_state)" where
  "sampleGoal s =
     (case GoalStates_sampleGoal (lock_guard s) of
        Inl err \<Rightarrow> Inl err
      | Inr (st, s1) \<Rightarrow> Inr (st, unlock s1))"

definition setNewStateCallback :: "bool \<Rightarrow> 'a samples_state \<Rightarrow> 'a samples_state" where
  "setNewStateCallback cb s = s\<lparr>callback := cb\<rparr>"

definition addState :: "'a \<Rightarrow> 'a samples_state \<Rightarrow> 'a samples_state" where
  "addState st s = unlock (GoalStates_addState st (lock_guard s))"

definition getState :: "nat \<Rightarrow> 'a samples_state \<Rightarrow> error + ('a \<times> 'a samples_state)" where
  "getState index s =
     (case GoalStates_getState index (lock_guard s) of
        Inl err \<Rightarrow> Inl err
      | Inr (st, s1) \<Rightarrow> Inr (st, unlock s1))"

definition hasStates :: "'a samples_state \<Rightarrow> bool \<times> 'a samples_state" where
  "hasStates s = (let (b, s1) = GoalStates_hasStates (lock_guard s) in (b, unlock s1))"

definition getStateCount :: "'a samples_state \<Rightarrow> nat \<times> 'a samples_state" where
  "getStateCount s = (let (n, s1) = GoalStates_getStateCount (lock_guard s) in (n, unlock s1))"

definition maxSampleCount :: "'a samples_state \<Rightarrow> nat \<times> 'a samples_state" where
  "maxSampleCount s = (let (n, s1) = GoalStates_maxSampleCount (lock_guard s) in (n, unlock s1))"

definition addStateIfDifferent ::
  "'a SpaceInformation \<Rightarrow> 'a \<Rightarrow> real \<Rightarrow> 'a samples_state \<Rightarrow> bool \<times> 'a samples_state" where
  "addStateIfDifferent si st minDistance s =
     (let (d, s1) = GoalStates_distanceGoal si st (lock_guard s) in
      if exceeds d minDistance
      then (let s2 = GoalStates_addState st s1;
                newState = (if callback s2 then Some (last (states s2)) else None);
                s3 = unlock (if callback s2 then emit (Read GoalCollection) s2 else s2)
            in (True, (case newState of None \<Rightarrow> s3 | Some x \<Rightarrow> emit (Callback x) s3)))
      else (False, unlock s1))"

subsection \<open>The weighted selection\<close>

text \<open>The loop of the region reset (lines 268--272) over the content of the queue.\<close>

fun reset_weights :: "heap_order \<Rightarrow> nat list \<Rightarrow> 'a samples_state \<Rightarrow> error + 'a samples_state" where
  "reset_weights upd [] s = Inr s"
| "reset_weights upd (weighted_goal # rest) s =
     (case heap_data s weighted_goal of
        None \<Rightarrow> Inl InvalidPointer
      | Some g \<Rightarrow>
          (case heap_element g of
             None \<Rightarrow> Inl InvalidPointer
           | Some e \<Rightarrow>
               (case heap_data s e of
                  None \<Rightarrow> Inl InvalidPointer
                | Some d \<Rightarrow> reset_weights upd rest (BinaryHeap_update upd e (set_weight e 0.5 s)))))"

definition penalizeWeightedGoal ::
  "heap_order \<Rightarrow> 'a WeightedGoal \<Rightarrow> 'a samples_state \<Rightarrow> error + 'a samples_state" where
  "penalizeWeightedGoal upd weighted_goal s =
     (case heap_element weighted_goal of
        None \<Rightarrow> Inl InvalidPointer
      | Some e \<Rightarrow>
          (case heap_data s e of
             None \<Rightarrow> Inl InvalidPointer
           | Some d \<Rightarrow>
               (let w = weight d;
                    s1 = set_weight e (w / (w + 1)) (emit (Read WeightQueue) s);
                    s2 = BinaryHeap_update upd e s1
                in if w < 0.2 \<and> \<not> sample_goals s2
                   then (let (existing_weighted_goals, s3) = BinaryHeap_getContent s2 in
                         case reset_weights upd existing_weighted_goals s3 of
                           Inl err \<Rightarrow> Inl err
                         | Inr s4 \<Rightarrow>
                             Inr (s4\<lparr>sample_goals := True,
                                      max_sampled_goals := max_sampled_goals s4 + 10\<rparr>))
                   else Inr s2)))"

definition rewardWeightedGoal ::
  "heap_order \<Rightarrow> 'a WeightedGoal \<Rightarrow> 'a samples_state \<Rightarrow> error + 'a samples_state" where
  "rewardWeightedGoal upd weighted_goal s =
     (case heap_element weighted_goal of
        None \<Rightarrow> Inl InvalidPointer
      | Some e \<Rightarrow>
          (case heap_data s e of
             None \<Rightarrow> Inl InvalidPointer
           | Some d \<Rightarrow>
               (let w = weight d;
                    s1 = emit (Read WeightQueue) s
                in if w < 1
                   then (let new_w = w / (1 - w);
                             new_w = (if new_w > 1 then 1 else new_w)
                         in Inr (BinaryHeap_update upd e (set_weight e new_w s1)))
                   else Inr s1)))"

definition sampleWeightedGoal ::
  "'a WeightedGoal \<Rightarrow> 'a samples_state \<Rightarrow> error + ('a WeightedGoal \<times> 'a samples_state)" where
  "sampleWeightedGoal weighted_goal s =
     (if states s = [] then Inl EmptyRegion
      else (let (top_element, s1) = BinaryHeap_top (emit (Read GoalCollection) s) in
            case top_element of
              None \<Rightarrow> Inl InvalidPointer
            | Some e \<Rightarrow>
                (case heap_data s1 e of
                   None \<Rightarrow> Inl InvalidPointer
                 | Some d \<Rightarrow>
                     Inr (weighted_goal\<lparr>state := state d, weight := weight d,
                                         heap_element := heap_element d\<rparr>,
                          emit (Read WeightQueue) s1))))"

definition sampleConsecutiveGoal ::
  "'a WeightedGoal \<Rightarrow> 'a samples_state \<Rightarrow> error + ('a WeightedGoal \<times> 'a samples_state)" where
  "sampleConsecutiveGoal weighted_goal s =
     (if states s = [] then Inl EmptyRegion
      else (case GoalStates_sampleGoal (emit (Read GoalCollection) s) of
              Inl err \<Rightarrow> Inl err
            | Inr (st, s1) \<Rightarrow> Inr (weighted_goal\<lparr>state := st\<rparr>, s1)))"

subsection \<open>Calls from other threads, runs and reachable states\<close>

text \<open>
  A run interleaves steps of the background thread with calls of the public functions
  from other threads, one whole call or one thread step at a time. A call that throws
  or dereferences an invalid pointer ends the run.
\<close>

datatype 'a action =
    Thread
  | StartSampling | StopSampling | Clear
  | AddState 'a | AddStateIfDifferent 'a real | SetNewStateCallback bool
  | Penalize "'a WeightedGoal" | Reward "'a WeightedGoal"
  | SampleWeighted "'a WeightedGoal" | SampleConsecutive "'a WeightedGoal"
  | SampleGoal | GetState nat | HasStates | GetStateCount | MaxSampleCount | DistanceGoal 'a

fun step ::
  "'a SpaceInformation \<Rightarrow> heap_order \<Rightarrow> ('a samples_state \<Rightarrow> 'a list) option \<Rightarrow>
   'a action \<Rightarrow> 'a samples_state \<Rightarrow> error + 'a samples_state" where
  "step si upd f Thread s = Inr (thread_step si f s)"
| "step si upd f StartSampling s = Inr (startSampling s)"
| "step si upd f StopSampling s = Inr (stopSampling si f s)"
| "step si upd f Clear s = Inr (clear s)"
| "step si upd f (AddState st) s = Inr (addState st s)"
| "step si upd f (AddStateIfDifferent st d) s = Inr (snd (addStateIfDifferent si st d s))"
| "step si upd f (SetNewStateCallback cb) s = Inr (setNewStateCallback cb s)"
| "step si upd f (Penalize g) s = penalizeWeightedGoal upd g s"
| "step si upd f (Reward g) s = rewardWeightedGoal upd g s"
| "step si upd f (SampleWeighted g) s = map_sum id snd (sampleWeightedGoal g s)"
| "step si upd f (SampleConsecutive g) s = map_sum id snd (sampleConsecutiveGoal g s)"
| "step si upd f SampleGoal s = map_sum id snd (sampleGoal s)"
| "step si upd f (GetState i) s = map_sum id snd (getState i s)"
| "step si upd f HasStates s = Inr (snd (hasStates s))"
| "step si upd f GetStateCount s = Inr (snd (getStateCount s))"
| "step si upd f MaxSampleCount s = Inr (snd (maxSampleCount s))"
| "step si upd f (DistanceGoal st) s = Inr (snd (distanceGoal si st s))"

fun run ::
  "'a SpaceInformation \<Rightarrow> heap_order \<Rightarrow> ('a samples_state \<Rightarrow> 'a list) option \<Rightarrow>
   'a action list \<Rightarrow> 'a samples_state \<Rightarrow> error + 'a samples_state" where
  "run si upd f [] s = Inr s"
| "run si upd f (a # as) s =
     (case step si upd f a s of Inl err \<Rightarrow> Inl err | Inr s' \<Rightarrow> run si upd f as s')"



subsection \<open>Well-formed queues\<close>

text \<open>
  What the callers that fill the queue establish: an update of the heap rearranges the
  array without adding or dropping an element, and every element of the array is live
  and its goal points back to it (\<open>g->heap_element_\<close> is the element whose data is \<open>g\<close>).
  \<open>weight_of s e\<close> reads \<open>e->data->weight_\<close> of a live element.
\<close>

definition heap_ok :: "heap_order \<Rightarrow> bool" where
  "heap_ok upd = (\<forall>w e v. set (upd w e v) = set v)"

definition wf_queue :: "('a, 'z) samples_state_scheme \<Rightarrow> bool" where
  "wf_queue s = (\<forall>h \<in> set (vector s). \<exists>d. heap_data s h = Some d \<and> heap_element d = Some h)"

definition weight_of :: "('a, 'z) samples_state_scheme \<Rightarrow> nat \<Rightarrow> real" where
  "weight_of s e = (case heap_data s e of Some d \<Rightarrow> weight d | None \<Rightarrow> 0)"


subsection \<open>The penalty in binary64 arithmetic\<close>


text \<open>
  The exponent of the binade of \<open>x\<close>: the \<open>k\<close> with \<open>2^k \<le> |x| < 2^(k + 1)\<close>, and \<open>-1022\<close>
  for the subnormal numbers below \<open>2^-1022\<close> and for 0. From \<open>2^1024\<close> on it is 1024.
\<close>

definition binary64_exponent :: "real \<Rightarrow> int" where
  "binary64_exponent x =
     (case find (\<lambda>k. \<bar>x\<bar> < 2 powi (k + 1)) [- 1022 .. 1023] of Some k \<Rightarrow> k | None \<Rightarrow> 1024)"



section \<open>\<open>WeightedGoalRegionSampler\<close>\<close>

text \<open>
  The second class has the members of the first and two more for the thread that grows
  the roadmap. Its functions are translated from its own source file; the line numbers
  in this section are those of \<^verbatim>\<open>weighted_goal_region_sampler.cpp\<close>.
\<close>

record 'a sampler_state = "'a samples_state" +
  terminateGrowingRoadmapThread :: bool
  growingRoadmapThread :: bool
  roadmap_pc :: thread_pc

subsection \<open>Starting and stopping; the sampling thread\<close>

definition Sampler_startSampling :: "'a sampler_state \<Rightarrow> 'a sampler_state" where
  "Sampler_startSampling s =
     (let s1 = lock_guard s in
      unlock (if \<not> samplingThread s1
              then s1\<lparr>terminateSamplingThread := False, samplingThread := True, thread_pc := AtEntry\<rparr>
              else s1))"

definition Sampler_isSampling :: "'a sampler_state \<Rightarrow> bool \<times> 'a sampler_state" where
  "Sampler_isSampling s =
     (let s1 = lock_guard s in
      (\<not> terminateSamplingThread s1 \<and> samplingThread s1, unlock s1))"

text \<open>The \<open>for\<close> loop over the candidates of one sampler call (lines 165--181).\<close>

fun Sampler_add_sampled_states ::
  "'a SpaceInformation \<Rightarrow> 'a list \<Rightarrow> bool \<times> 'a sampler_state \<Rightarrow> bool \<times> 'a sampler_state" where
  "Sampler_add_sampled_states si [] (increase_num_sampled_goals, s) = (increase_num_sampled_goals, s)"
| "Sampler_add_sampled_states si (sampled_state # rest) (increase_num_sampled_goals, s) =
     (if satisfiesBounds si sampled_state \<and> isValid si sampled_state
      then Sampler_add_sampled_states si rest
             (True, unlock (GoalStates_addState sampled_state
                      (lock_guard (s\<lparr>num_sampled_goals := num_sampled_goals s + 1\<rparr>))))
      else Sampler_add_sampled_states si rest (increase_num_sampled_goals, s))"

text \<open>One pass through the body of \<open>while (isSampling())\<close> (lines 156--189).\<close>

definition Sampler_loop_iteration ::
  "'a SpaceInformation \<Rightarrow> ('a sampler_state \<Rightarrow> 'a list) \<Rightarrow> 'a sampler_state \<Rightarrow> 'a sampler_state" where
  "Sampler_loop_iteration si samplerFunc s =
     (if num_sampled_goals s < max_sampled_goals s
      then (let sampled_states = samplerFunc s;
                (increase_num_sampled_goals, s1) =
                   Sampler_add_sampled_states si sampled_states (False, emit SamplerCall s);
                s2 = (if num_sampled_goals s1 \<ge> max_sampled_goals s1
                      then s1\<lparr>sample_goals := False\<rparr> else s1)
            in if increase_num_sampled_goals
               then s2\<lparr>samplingAttempts := samplingAttempts s2 + 1\<rparr> else s2)
      else s)"

text \<open>The end of the thread function (lines 197--200).\<close>

definition Sampler_thread_epilogue :: "'a sampler_state \<Rightarrow> 'a sampler_state" where
  "Sampler_thread_epilogue s =
     (unlock ((lock_guard s)\<lparr>terminateSamplingThread := True\<rparr>))\<lparr>thread_pc := Returned\<rparr>"

text \<open>The test \<open>if (isSampling() && samplerFunc_)\<close> (line 151) and its \<open>else\<close> branch.\<close>

definition Sampler_begin_computation ::
  "('a sampler_state \<Rightarrow> 'a list) option \<Rightarrow> 'a sampler_state \<Rightarrow> 'a sampler_state" where
  "Sampler_begin_computation samplerFunc s =
     (let (sampling, s1) = Sampler_isSampling s in
      if sampling \<and> samplerFunc \<noteq> None then s1\<lparr>thread_pc := InLoop\<rparr>
      else Sampler_thread_epilogue (emit Warn s1))"

text \<open>
  One step of \<open>goalSamplingThread\<close>: from the entry to the first loop head, one poll of
  the wait for the space information, or one evaluation of \<open>while (isSampling())\<close> with
  the body or the exit that follows.
\<close>

definition Sampler_thread_step ::
  "'a SpaceInformation \<Rightarrow> ('a sampler_state \<Rightarrow> 'a list) option \<Rightarrow> 'a sampler_state \<Rightarrow> 'a sampler_state" where
  "Sampler_thread_step si samplerFunc s =
     (case thread_pc s of
        NoThread \<Rightarrow> s
      | Returned \<Rightarrow> s
      | AtEntry \<Rightarrow>
          (let s1 = unlock (lock_guard s) in
           if \<not> isSetup si then s1\<lparr>thread_pc := WaitForSetup\<rparr>
           else Sampler_begin_computation samplerFunc s1)
      | WaitForSetup \<Rightarrow>
          (if \<not> terminateSamplingThread s \<and> \<not> isSetup si then s
           else Sampler_begin_computation samplerFunc s)
      | InLoop \<Rightarrow>
          (let (sampling, s1) = Sampler_isSampling s in
           if sampling
           then (case samplerFunc of Some f \<Rightarrow> Sampler_loop_iteration si f s1 | None \<Rightarrow> s1)
           else Sampler_thread_epilogue s1))"

text \<open>
  \<open>join\<close> lets the thread function run until it has returned. Once the stop flag is set
  the thread needs at most two steps (leave the wait, or leave the loop).
\<close>

fun Sampler_run_thread ::
  "nat \<Rightarrow> 'a SpaceInformation \<Rightarrow> ('a sampler_state \<Rightarrow> 'a list) option \<Rightarrow> 'a sampler_state \<Rightarrow> 'a sampler_state" where
  "Sampler_run_thread 0 si samplerFunc s = s"
| "Sampler_run_thread (Suc n) si samplerFunc s =
     (if thread_pc s = Returned \<or> thread_pc s = NoThread then s
      else Sampler_run_thread n si samplerFunc (Sampler_thread_step si samplerFunc s))"

definition Sampler_stopSampling ::
  "'a SpaceInformation \<Rightarrow> ('a sampler_state \<Rightarrow> 'a list) option \<Rightarrow> 'a sampler_state \<Rightarrow> 'a sampler_state" where
  "Sampler_stopSampling si samplerFunc s =
     (let s1 = lock_guard s;
          s2 = unlock (if \<not> terminateSamplingThread s1
                       then s1\<lparr>terminateSamplingThread := True\<rparr> else s1)
      in if samplingThread s2
         then (Sampler_run_thread 2 si samplerFunc s2)\<lparr>samplingThread := False, thread_pc := NoThread\<rparr>
         else s2)"

definition WeightedGoalRegionSampler :: "32 word \<Rightarrow> bool \<Rightarrow> real \<Rightarrow> 'a sampler_state" where
  "WeightedGoalRegionSampler max_goals autoStart min_dist =
     (let s = \<lparr>states = [], samplePosition = 0, vector = [], heap_data = (\<lambda>h. None),
                terminateSamplingThread = False, samplingThread = False,
                samplingAttempts = 0, minDist = min_dist,
                max_sampled_goals = max_goals, sample_goals = True,
                num_sampled_goals = 0, callback = False,
                thread_pc = NoThread, trace = [],
                terminateGrowingRoadmapThread = False, growingRoadmapThread = False,
                roadmap_pc = NoThread\<rparr>
      in if autoStart then Sampler_startSampling s else s)"

subsection \<open>The goal store\<close>

definition Sampler_clear :: "'a sampler_state \<Rightarrow> 'a sampler_state" where
  "Sampler_clear s = unlock (BinaryHeap_clear (GoalStates_clear (lock_guard s)))"

definition Sampler_distanceGoal :: "'a SpaceInformation \<Rightarrow> 'a \<Rightarrow> 'a sampler_state \<Rightarrow> real option \<times> 'a sampler_state" where
  "Sampler_distanceGoal si st s = (let (d, s1) = GoalStates_distanceGoal si st (lock_guard s) in (d, unlock s1))"

definition Sampler_sampleGoal :: "'a sampler_state \<Rightarrow> error + ('a \<times> 'a sampler_state)" where
  "Sampler_sampleGoal s =
     (case GoalStates_sampleGoal (lock_guard s) of
        Inl err \<Rightarrow> Inl err
      | Inr (st, s1) \<Rightarrow> Inr (st, unlock s1))"

definition Sampler_setNewStateCallback :: "bool \<Rightarrow> 'a sampler_state \<Rightarrow> 'a sampler_state" where
  "Sampler_setNewStateCallback cb s = s\<lparr>callback := cb\<rparr>"

definition Sampler_addState :: "'a \<Rightarrow> 'a sampler_state \<Rightarrow> 'a sampler_state" where
  "Sampler_addState st s = unlock (GoalStates_addState st (lock_guard s))"

definition Sampler_getState :: "nat \<Rightarrow> 'a sampler_state \<Rightarrow> error + ('a \<times> 'a sampler_state)" where
  "Sampler_getState index s =
     (case GoalStates_getState index (lock_guard s) of
        Inl err \<Rightarrow> Inl err
      | Inr (st, s1) \<Rightarrow> Inr (st, unlock s1))"

definition Sampler_hasStates :: "'a sampler_state \<Rightarrow> bool \<times> 'a sampler_state" where
  "Sampler_hasStates s = (let (b, s1) = GoalStates_hasStates (lock_guard s) in (b, unlock s1))"

definition Sampler_getStateCount :: "'a sampler_state \<Rightarrow> nat \<times> 'a sampler_state" where
  "Sampler_getStateCount s = (let (n, s1) = GoalStates_getStateCount (lock_guard s) in (n, unlock s1))"

definition Sampler_maxSampleCount :: "'a sampler_state \<Rightarrow> nat \<times> 'a sampler_state" where
  "Sampler_maxSampleCount s = (let (n, s1) = GoalStates_maxSampleCount (lock_guard s) in (n, unlock s1))"

definition Sampler_addStateIfDifferent ::
  "'a SpaceInformation \<Rightarrow> 'a \<Rightarrow> real \<Rightarrow> 'a sampler_state \<Rightarrow> bool \<times> 'a sampler_state" where
  "Sampler_addStateIfDifferent si st minDistance s =
     (let (d, s1) = GoalStates_distanceGoal si st (lock_guard s) in
      if exceeds d minDistance
      then (let s2 = GoalStates_addState st s1;
                newState = (if callback s2 then Some (last (states s2)) else None);
                s3 = unlock (if callback s2 then emit (Read GoalCollection) s2 else s2)
            in (True, (case newState of None \<Rightarrow> s3 | Some x \<Rightarrow> emit (Callback x) s3)))
      else (False, unlock s1))"

subsection \<open>The weighted selection\<close>

text \<open>The loop of the region reset (lines 324--328) over the content of the queue.\<close>

fun Sampler_reset_weights :: "heap_order \<Rightarrow> nat list \<Rightarrow> 'a sampler_state \<Rightarrow> error + 'a sampler_state" where
  "Sampler_reset_weights upd [] s = Inr s"
| "Sampler_reset_weights upd (weighted_goal # rest) s =
     (case heap_data s weighted_goal of
        None \<Rightarrow> Inl InvalidPointer
      | Some g \<Rightarrow>
          (case heap_element g of
             None \<Rightarrow> Inl InvalidPointer
           | Some e \<Rightarrow>
               (case heap_data s e of
                  None \<Rightarrow> Inl InvalidPointer
                | Some d \<Rightarrow> Sampler_reset_weights upd rest (BinaryHeap_update upd e (set_weight e 0.5 s)))))"

definition Sampler_penalizeWeightedGoal ::
  "heap_order \<Rightarrow> 'a WeightedGoal \<Rightarrow> 'a sampler_state \<Rightarrow> error + 'a sampler_state" where
  "Sampler_penalizeWeightedGoal upd weighted_goal s =
     (case heap_element weighted_goal of
        None \<Rightarrow> Inl InvalidPointer
      | Some e \<Rightarrow>
          (case heap_data s e of
             None \<Rightarrow> Inl InvalidPointer
           | Some d \<Rightarrow>
               (let w = weight d;
                    s1 = set_weight e (w / (w + 1)) (emit (Read WeightQueue) s);
                    s2 = BinaryHeap_update upd e s1
                in if w < 0.2 \<and> \<not> sample_goals s2
                   then (let (existing_weighted_goals, s3) = BinaryHeap_getContent s2 in
                         case Sampler_reset_weights upd existing_weighted_goals s3 of
                           Inl err \<Rightarrow> Inl err
                         | Inr s4 \<Rightarrow>
                             Inr (s4\<lparr>sample_goals := True,
                                      max_sampled_goals := max_sampled_goals s4 + 10\<rparr>))
                   else Inr s2)))"

definition Sampler_rewardWeightedGoal ::
  "heap_order \<Rightarrow> 'a WeightedGoal \<Rightarrow> 'a sampler_state \<Rightarrow> error + 'a sampler_state" where
  "Sampler_rewardWeightedGoal upd weighted_goal s =
     (case heap_element weighted_goal of
        None \<Rightarrow> Inl InvalidPointer
      | Some e \<Rightarrow>
          (case heap_data s e of
             None \<Rightarrow> Inl InvalidPointer
           | Some d \<Rightarrow>
               (let w = weight d;
                    s1 = emit (Read WeightQueue) s
                in if w < 1
                   then (let new_w = w / (1 - w);
                             new_w = (if new_w > 1 then 1 else new_w)
                         in Inr (BinaryHeap_update upd e (set_weight e new_w s1)))
                   else Inr s1)))"

definition Sampler_sampleWeightedGoal ::
  "'a WeightedGoal \<Rightarrow> 'a sampler_state \<Rightarrow> error + ('a WeightedGoal \<times> 'a sampler_state)" where
  "Sampler_sampleWeightedGoal weighted_goal s =
     (if states s = [] then Inl EmptyRegion
      else (let (top_element, s1) = BinaryHeap_top (emit (Read GoalCollection) s) in
            case top_element of
              None \<Rightarrow> Inl InvalidPointer
            | Some e \<Rightarrow>
                (case heap_data s1 e of
                   None \<Rightarrow> Inl InvalidPointer
                 | Some d \<Rightarrow>
                     Inr (weighted_goal\<lparr>state := state d, weight := weight d,
                                         heap_element := heap_element d\<rparr>,
                          emit (Read WeightQueue) s1))))"

definition Sampler_sampleConsecutiveGoal ::
  "'a WeightedGoal \<Rightarrow> 'a sampler_state \<Rightarrow> error + ('a WeightedGoal \<times> 'a sampler_state)" where
  "Sampler_sampleConsecutiveGoal weighted_goal s =
     (if states s = [] then Inl EmptyRegion
      else (case GoalStates_sampleGoal (emit (Read GoalCollection) s) of
              Inl err \<Rightarrow> Inl err
            | Inr (st, s1) \<Rightarrow> Inr (weighted_goal\<lparr>state := st\<rparr>, s1)))"

subsection \<open>The thread that grows the roadmap\<close>

definition startGrowingRoadmap :: "'a sampler_state \<Rightarrow> 'a sampler_state" where
  "startGrowingRoadmap s =
     (let s1 = lock_guard s in
      unlock (if \<not> growingRoadmapThread s1
              then s1\<lparr>terminateGrowingRoadmapThread := False, growingRoadmapThread := True,
                      roadmap_pc := InLoop\<rparr>
              else s1))"

definition isGrowingRoadmap :: "'a sampler_state \<Rightarrow> bool \<times> 'a sampler_state" where
  "isGrowingRoadmap s =
     (let s1 = lock_guard s in
      (\<not> terminateGrowingRoadmapThread s1 \<and> growingRoadmapThread s1, unlock s1))"

text \<open>
  One step of \<open>roadmapGrowingThread\<close> (lines 205--217): one evaluation of
  \<open>while (isGrowingRoadmap())\<close> with the call of \<open>growRoadmap\<close> or the exit that follows.
\<close>

definition roadmap_step :: "'a sampler_state \<Rightarrow> 'a sampler_state" where
  "roadmap_step s =
     (case roadmap_pc s of
        InLoop \<Rightarrow>
          (let (growing, s1) = isGrowingRoadmap s in
           if growing then emit GrowRoadmap s1
           else (unlock ((lock_guard s1)\<lparr>terminateGrowingRoadmapThread := True\<rparr>))
                  \<lparr>roadmap_pc := Returned\<rparr>)
      | _ \<Rightarrow> s)"

definition stopGrowingRoadmap :: "'a sampler_state \<Rightarrow> 'a sampler_state" where
  "stopGrowingRoadmap s =
     (let s1 = lock_guard s;
          s2 = unlock (if \<not> terminateGrowingRoadmapThread s1
                       then s1\<lparr>terminateGrowingRoadmapThread := True\<rparr> else s1)
      in if growingRoadmapThread s2
         then (roadmap_step s2)\<lparr>growingRoadmapThread := False, roadmap_pc := NoThread\<rparr>
         else s2)"

text \<open>
  The view of a \<open>WeightedGoalRegionSampler\<close> as a \<open>WeightedGoalRegionSamples\<close>: the
  members the two classes share. A sampler function written for the first class reads
  the second through this view.
\<close>

definition shared :: "'a sampler_state \<Rightarrow> 'a samples_state" where
  "shared s = samples_state.truncate s"

definition lift_sampler ::
  "('a samples_state \<Rightarrow> 'a list) option \<Rightarrow> ('a sampler_state \<Rightarrow> 'a list) option" where
  "lift_sampler samplerFunc = map_option (\<lambda>f s. f (shared s)) samplerFunc"

definition roadmap_members :: "'a sampler_state \<Rightarrow> bool \<times> bool \<times> thread_pc" where
  "roadmap_members s = (terminateGrowingRoadmapThread s, growingRoadmapThread s, roadmap_pc s)"

section \<open>Observations\<close>

text \<open>
  What the properties read off a state: the events an operation has added to the trace,
  the candidates of a batch that pass the two checks of the sampling thread, the number
  of sampler calls so far, and a summary of the members the sampling thread works on
  (size of the store, \<open>num_sampled_goals_\<close>, \<open>max_sampled_goals_\<close>, \<open>sample_goals_\<close>, the
  place of the thread, \<open>terminateSamplingThread_\<close>).
\<close>

definition new_events :: "('a, 'z) samples_state_scheme \<Rightarrow> ('a, 'z) samples_state_scheme \<Rightarrow> 'a event list" where
  "new_events s s' = drop (length (trace s)) (trace s')"

definition valid_candidates :: "'a SpaceInformation \<Rightarrow> 'a list \<Rightarrow> 'a list" where
  "valid_candidates si xs = filter (\<lambda>x. satisfiesBounds si x \<and> isValid si x) xs"

definition sampler_calls :: "('a, 'z) samples_state_scheme \<Rightarrow> nat" where
  "sampler_calls s = length (filter (\<lambda>e. e = SamplerCall) (trace s))"

definition observe :: "('a, 'z) samples_state_scheme \<Rightarrow> nat \<times> 32 word \<times> 32 word \<times> bool \<times> thread_pc \<times> bool" where
  "observe s = (length (states s), num_sampled_goals s, max_sampled_goals s, sample_goals s,
                thread_pc s, terminateSamplingThread s)"

section \<open>Concrete inputs\<close>

text \<open>
  A space information that is set up and accepts every state, a heap order that leaves
  the array as it is, and a sampler that yields the three candidates 1, 2, 3 at every
  call.
\<close>

definition ex_si :: "nat SpaceInformation" where
  "ex_si = \<lparr>isSetup = True, satisfiesBounds = (\<lambda>x. True), isValid = (\<lambda>x. True),
            distance = (\<lambda>a b. \<bar>real a - real b\<bar>)\<rparr>"

definition ex_order :: heap_order where
  "ex_order w e v = v"

definition ex_sampler :: "(nat samples_state \<Rightarrow> nat list) option" where
  "ex_sampler = Some (\<lambda>s. [1, 2, 3])"

text \<open>
  An object whose thread is in its loop with the target of 5 reached by six accepted
  goals, and a queue of two goals: element 0 with weight 0.1 and element 1 with weight
  0.9. The parameter is \<open>sample_goals_\<close>.
\<close>

definition ex_goal :: "nat WeightedGoal" where
  "ex_goal = \<lparr>state = 7, weight = 1 / 10, heap_element = Some 0\<rparr>"

definition ex_other :: "nat WeightedGoal" where
  "ex_other = \<lparr>state = 8, weight = 9 / 10, heap_element = Some 1\<rparr>"

definition ex_queue :: "bool \<Rightarrow> nat samples_state" where
  "ex_queue sampling =
     \<lparr>states = [7, 8, 9, 7, 8, 9], samplePosition = 0, vector = [0, 1],
      heap_data = [0 \<mapsto> ex_goal, 1 \<mapsto> ex_other],
      terminateSamplingThread = False, samplingThread = True,
      samplingAttempts = 2, minDist = 0,
      max_sampled_goals = 5, sample_goals = sampling,
      num_sampled_goals = 6, callback = False,
      thread_pc = InLoop, trace = []\<rparr>"

text \<open>The same paused object with goal 0 at weight 0.2, the bound of the reset test.\<close>

definition ex_boundary :: "nat samples_state" where
  "ex_boundary = (ex_queue False)\<lparr>heap_data := [0 \<mapsto> ex_goal\<lparr>weight := 1 / 5\<rparr>, 1 \<mapsto> ex_other]\<rparr>"

text \<open>
  Objects as the constructor leaves them, with a target of 5: not started and with a
  registered callback; the same with its thread started and arrived in the loop; started
  by the constructor; and an object of the second class with both threads started.
\<close>

definition ex_fresh :: "nat samples_state" where
  "ex_fresh = setNewStateCallback True (WeightedGoalRegionSamples 5 False 0)"

definition ex_looping :: "nat samples_state" where
  "ex_looping = thread_step ex_si ex_sampler (startSampling ex_fresh)"

definition ex_started :: "nat samples_state" where
  "ex_started = WeightedGoalRegionSamples 5 True 0"

definition ex_sampler_state :: "nat sampler_state" where
  "ex_sampler_state = startGrowingRoadmap (WeightedGoalRegionSampler 5 True 0)"

text \<open>The paused object with its queue of two goals, as an object of the second class.\<close>

definition ex_sampler_queue :: "nat sampler_state" where
  "ex_sampler_queue =
     \<lparr>states = [7, 8, 9, 7, 8, 9], samplePosition = 0, vector = [0, 1],
      heap_data = [0 \<mapsto> ex_goal, 1 \<mapsto> ex_other],
      terminateSamplingThread = False, samplingThread = True,
      samplingAttempts = 2, minDist = 0,
      max_sampled_goals = 5, sample_goals = False,
      num_sampled_goals = 6, callback = False,
      thread_pc = InLoop, trace = [],
      terminateGrowingRoadmapThread = False, growingRoadmapThread = True,
      roadmap_pc = InLoop\<rparr>"

text \<open>A run that penalizes goal 0 of the paused object and lets the thread work again.\<close>

definition ex_run :: "nat action list" where
  "ex_run = [Penalize ex_goal, Thread, AddState 4, Thread, Reward ex_goal, Thread, Thread]"

section \<open>Properties\<close>

subsection \<open>Weights: penalties, rewards and the region reset\<close>

lemmas prim_defs = emit_def lock_guard_def unlock_def set_weight_def BinaryHeap_update_def
  BinaryHeap_getContent_def BinaryHeap_top_def BinaryHeap_clear_def GoalStates_addState_def
  GoalStates_clear_def

text \<open>The loop of the region reset: the members it leaves alone, and its result.\<close>

lemma reset_weights_frame:
  fixes s :: "'a samples_state"
  shows "reset_weights upd gs s = Inr s' \<Longrightarrow>
     sample_goals s' = sample_goals s \<and> max_sampled_goals s' = max_sampled_goals s \<and>
     num_sampled_goals s' = num_sampled_goals s \<and> states s' = states s \<and>
     samplePosition s' = samplePosition s \<and>
     terminateSamplingThread s' = terminateSamplingThread s \<and>
     samplingThread s' = samplingThread s \<and> thread_pc s' = thread_pc s \<and>
     callback s' = callback s"
proof (induction gs arbitrary: s)
  case Nil
  then show ?case by simp
next
  case (Cons g gs)
  from Cons.prems obtain d e d' where
    "reset_weights upd gs (BinaryHeap_update upd e (set_weight e 0.5 s)) = Inr s'"
    by (auto split: option.splits)
  from Cons.IH [OF this] show ?case by (simp add: prim_defs)
qed

lemma reset_weights_result:
  assumes "heap_ok upd"
    and "\<forall>g \<in> set gs. \<exists>d. heap_data s g = Some d \<and> heap_element d = Some g"
  shows "\<exists>s'. reset_weights upd gs s = Inr s' \<and>
     heap_data s' = (\<lambda>h. if h \<in> set gs then map_option (\<lambda>d. d\<lparr>weight := 0.5\<rparr>) (heap_data s h)
                          else heap_data s h) \<and>
     set (vector s') = set (vector s)"
  using assms(2)
proof (induction gs arbitrary: s)
  case Nil
  then show ?case by simp
next
  case (Cons g gs)
  then obtain d where d: "heap_data s g = Some d" "heap_element d = Some g" by auto
  let ?s1 = "BinaryHeap_update upd g (set_weight g 0.5 s)"
  have hd1: "heap_data ?s1 = (heap_data s)(g \<mapsto> d\<lparr>weight := 0.5\<rparr>)"
    using d by (simp add: prim_defs)
  have v1: "set (vector ?s1) = set (vector s)"
    using assms(1) by (simp add: prim_defs heap_ok_def)
  have "\<forall>g' \<in> set gs. \<exists>d'. heap_data ?s1 g' = Some d' \<and> heap_element d' = Some g'"
    unfolding hd1 using Cons.prems d by auto
  from Cons.IH [OF this] obtain s' where s':
    "reset_weights upd gs ?s1 = Inr s'"
    "heap_data s' = (\<lambda>h. if h \<in> set gs then map_option (\<lambda>d. d\<lparr>weight := 0.5\<rparr>) (heap_data ?s1 h)
                          else heap_data ?s1 h)"
    "set (vector s') = set (vector ?s1)" by blast
  have "reset_weights upd (g # gs) s = Inr s'"
    using d s'(1) by simp
  moreover have "heap_data s' = (\<lambda>h. if h \<in> set (g # gs)
       then map_option (\<lambda>d. d\<lparr>weight := 0.5\<rparr>) (heap_data s h) else heap_data s h)"
    unfolding s'(2) hd1 using d by (auto simp: fun_eq_iff)
  ultimately show ?case using s'(3) v1 by simp
qed

lemma wf_queue_live:
  "wf_queue s \<Longrightarrow> h \<in> set (vector s) \<Longrightarrow> \<exists>d. heap_data s h = Some d \<and> heap_element d = Some h"
  by (auto simp: wf_queue_def)

text \<open>What one call of \<open>penalizeWeightedGoal\<close> on a live element returns.\<close>

lemma penalize_result:
  fixes s :: "'a samples_state"
  assumes ok: "heap_ok upd" and wf: "wf_queue s"
    and g: "heap_element g = Some e" and d: "heap_data s e = Some d"
  defines "hd1 \<equiv> (heap_data s)(e \<mapsto> d\<lparr>weight := weight d / (weight d + 1)\<rparr>)"
  shows "\<exists>s'. penalizeWeightedGoal upd g s = Inr s' \<and>
     set (vector s') = set (vector s) \<and>
     heap_data s' = (if weight d < 0.2 \<and> \<not> sample_goals s
                     then (\<lambda>h. if h \<in> set (vector s)
                                then map_option (\<lambda>d. d\<lparr>weight := 0.5\<rparr>) (hd1 h) else hd1 h)
                     else hd1) \<and>
     sample_goals s' = (sample_goals s \<or> weight d < 0.2) \<and>
     max_sampled_goals s' = (if weight d < 0.2 \<and> \<not> sample_goals s
                             then max_sampled_goals s + 10 else max_sampled_goals s) \<and>
     num_sampled_goals s' = num_sampled_goals s \<and> states s' = states s"
proof -
  let ?s2 = "BinaryHeap_update upd e
               (set_weight e (weight d / (weight d + 1)) (emit (Read WeightQueue) s))"
  have hd2: "heap_data ?s2 = hd1"
    using d by (simp add: prim_defs hd1_def)
  have v2: "set (vector ?s2) = set (vector s)"
    using ok by (simp add: prim_defs heap_ok_def)
  have f2: "sample_goals ?s2 = sample_goals s" "max_sampled_goals ?s2 = max_sampled_goals s"
    "num_sampled_goals ?s2 = num_sampled_goals s" "states ?s2 = states s"
    by (simp_all add: prim_defs)
  show ?thesis
  proof (cases "weight d < 0.2 \<and> \<not> sample_goals s")
    case False
    then have "penalizeWeightedGoal upd g s = Inr ?s2"
      using g d by (auto simp: penalizeWeightedGoal_def Let_def prim_defs)
    then show ?thesis using False hd2 v2 f2 by auto
  next
    case True
    let ?s3 = "emit (Read WeightQueue) ?s2"
    have hd3: "heap_data ?s3 = hd1" using hd2 by (simp add: emit_def)
    have v3: "vector ?s3 = vector ?s2" by (simp add: emit_def)
    have "\<forall>h \<in> set (vector ?s2). \<exists>d'. heap_data ?s3 h = Some d' \<and> heap_element d' = Some h"
    proof
      fix h assume "h \<in> set (vector ?s2)"
      then have "h \<in> set (vector s)" using v2 by simp
      from wf_queue_live [OF wf this] obtain d' where
        "heap_data s h = Some d'" "heap_element d' = Some h" by blast
      then show "\<exists>d'. heap_data ?s3 h = Some d' \<and> heap_element d' = Some h"
        unfolding hd3 hd1_def using d by (cases "h = e") auto
    qed
    from reset_weights_result [OF ok this] obtain s4 where s4:
      "reset_weights upd (vector ?s2) ?s3 = Inr s4"
      "heap_data s4 = (\<lambda>h. if h \<in> set (vector ?s2)
          then map_option (\<lambda>d. d\<lparr>weight := 0.5\<rparr>) (heap_data ?s3 h) else heap_data ?s3 h)"
      "set (vector s4) = set (vector ?s3)" by blast
    from reset_weights_frame [OF s4(1)] have f4:
      "max_sampled_goals s4 = max_sampled_goals s" "num_sampled_goals s4 = num_sampled_goals s"
      "states s4 = states s"
      by (simp_all add: prim_defs)
    let ?s5 = "s4\<lparr>sample_goals := True, max_sampled_goals := max_sampled_goals s4 + 10\<rparr>"
    have "penalizeWeightedGoal upd g s = Inr ?s5"
      using g d True s4(1) f2(1)
      by (simp add: penalizeWeightedGoal_def Let_def BinaryHeap_getContent_def)
    moreover have "heap_data ?s5 = (\<lambda>h. if h \<in> set (vector s)
         then map_option (\<lambda>d. d\<lparr>weight := 0.5\<rparr>) (hd1 h) else hd1 h)"
      using s4(2) unfolding hd3 v2 by simp
    moreover have "set (vector ?s5) = set (vector s)"
      using s4(3) v3 v2 by simp
    ultimately show ?thesis using True f4 by auto
  qed
qed

text \<open>
  Claim C2, as amended. In a well-formed queue, a call of \<open>penalizeWeightedGoal\<close> on a
  live goal returns normally. The reset is decided by the weight \<open>w\<close> the goal has before
  the call, not by the penalized weight \<open>w / (w + 1)\<close>. If \<open>w\<close> is below 0.2 and
  \<open>sample_goals_\<close> is false, then afterwards every goal of the queue has weight exactly
  0.5, \<open>max_sampled_goals_\<close> is the old target plus 10 (in 32-bit arithmetic; numerically
  plus 10 when that does not overflow) and \<open>sample_goals_\<close> is true. If \<open>sample_goals_\<close>
  is true or \<open>w\<close> is not below 0.2, there is no reset: flag and target are unchanged, the
  penalized goal has weight \<open>w / (w + 1)\<close> and every other goal is untouched.
\<close>

theorem region_reset:
  fixes s :: "'a samples_state"
  assumes "heap_ok upd" and "wf_queue s"
    and "heap_element g = Some e" and "heap_data s e = Some d"
  shows "\<exists>s'. penalizeWeightedGoal upd g s = Inr s' \<and>
     (if weight d < 0.2 \<and> \<not> sample_goals s
      then (\<forall>h \<in> set (vector s'). weight_of s' h = 0.5) \<and>
           max_sampled_goals s' = max_sampled_goals s + 10 \<and>
           (unat (max_sampled_goals s) + 10 < 2 ^ 32 \<longrightarrow>
              unat (max_sampled_goals s') = unat (max_sampled_goals s) + 10) \<and>
           sample_goals s'
      else sample_goals s' = sample_goals s \<and>
           max_sampled_goals s' = max_sampled_goals s \<and>
           weight_of s' e = weight d / (weight d + 1) \<and>
           (\<forall>h. h \<noteq> e \<longrightarrow> heap_data s' h = heap_data s h))"
proof -
  from penalize_result [OF assms] obtain s' where s':
    "penalizeWeightedGoal upd g s = Inr s'"
    "set (vector s') = set (vector s)"
    "heap_data s' = (if weight d < 0.2 \<and> \<not> sample_goals s
                     then (\<lambda>h. if h \<in> set (vector s)
                                then map_option (\<lambda>d. d\<lparr>weight := 0.5\<rparr>)
                                  (((heap_data s)(e \<mapsto> d\<lparr>weight := weight d / (weight d + 1)\<rparr>)) h)
                                else ((heap_data s)(e \<mapsto> d\<lparr>weight := weight d / (weight d + 1)\<rparr>)) h)
                     else (heap_data s)(e \<mapsto> d\<lparr>weight := weight d / (weight d + 1)\<rparr>))"
    "sample_goals s' = (sample_goals s \<or> weight d < 0.2)"
    "max_sampled_goals s' = (if weight d < 0.2 \<and> \<not> sample_goals s
                             then max_sampled_goals s + 10 else max_sampled_goals s)"
    by blast
  show ?thesis
  proof (cases "weight d < 0.2 \<and> \<not> sample_goals s")
    case False
    then show ?thesis using s' by (auto simp: weight_of_def)
  next
    case True
    have "\<forall>h \<in> set (vector s'). weight_of s' h = 0.5"
    proof
      fix h assume "h \<in> set (vector s')"
      then have h: "h \<in> set (vector s)" using s'(2) by simp
      from wf_queue_live [OF assms(2) h] obtain d' where "heap_data s h = Some d'" by blast
      then show "weight_of s' h = 0.5"
        using True h s'(3) by (cases "h = e") (auto simp: weight_of_def)
    qed
    moreover have "unat (max_sampled_goals s) + 10 < 2 ^ 32 \<longrightarrow>
        unat (max_sampled_goals s + 10) = unat (max_sampled_goals s) + 10"
      by (simp add: unat_word_ariths)
    ultimately show ?thesis using True s' by auto
  qed
qed










text \<open>The exponent is the one of the binade, and agrees with the logarithm.\<close>

lemma find_upto:
  assumes "lo \<le> k" and "k \<le> hi" and "P k" and "\<forall>j. lo \<le> j \<and> j < k \<longrightarrow> \<not> P j"
  shows "find P [lo..hi] = Some k"
  using assms(1,4)
proof (induction "nat (k - lo)" arbitrary: lo)
  case 0
  then have "lo = k" by simp
  then show ?case using assms(2,3) by (simp add: upto_rec1)
next
  case (Suc n)
  then have lt: "lo < k" by linarith
  then have "\<not> P lo" using Suc.prems by simp
  then have "find P [lo..hi] = find P [lo + 1..hi]"
    using lt assms(2) by (simp add: upto_rec1 [of lo hi])
  moreover have "find P [lo + 1..hi] = Some k"
    using Suc.hyps(2) Suc.prems lt by (intro Suc.hyps(1)) auto
  ultimately show ?case by simp
qed

lemma binary64_exponent_eq:
  assumes "- 1022 \<le> k" and "k \<le> 1023" and "k = - 1022 \<or> 2 powi k \<le> \<bar>x\<bar>"
    and "\<bar>x\<bar> < 2 powi (k + 1)"
  shows "binary64_exponent x = k"
proof -
  have "\<not> \<bar>x\<bar> < 2 powi (j + 1)" if "- 1022 \<le> j \<and> j < k" for j
  proof -
    have "2 powi k \<le> \<bar>x\<bar>" using that assms(3) by auto
    moreover have "(2::real) powi (j + 1) \<le> 2 powi k"
      using that by (intro power_int_increasing) auto
    ultimately show ?thesis by simp
  qed
  then have "find (\<lambda>k. \<bar>x\<bar> < 2 powi (k + 1)) [- 1022 .. 1023] = Some k"
    using assms by (intro find_upto) auto
  then show ?thesis by (simp add: binary64_exponent_def)
qed

lemma binary64_exponent_log:
  fixes x :: real
  assumes "x \<noteq> 0" and "\<bar>x\<bar> < 2 ^ 1024"
  shows "binary64_exponent x = max \<lfloor>log 2 \<bar>x\<bar>\<rfloor> (- 1022)"
proof -
  define k where "k = \<lfloor>log 2 \<bar>x\<bar>\<rfloor>"
  have x0: "0 < \<bar>x\<bar>" using assms(1) by simp
  have "2 powr of_int k \<le> \<bar>x\<bar> \<and> \<bar>x\<bar> < 2 powr of_int (k + 1)"
    using floor_log_eq_powr_iff [of "\<bar>x\<bar>" 2 k] x0 by (simp add: k_def)
  then have k: "2 powi k \<le> \<bar>x\<bar>" "\<bar>x\<bar> < 2 powi (k + 1)"
    using powr_real_of_int' [of 2 k] powr_real_of_int' [of 2 "k + 1"] by simp_all
  have hi: "k \<le> 1023"
  proof (rule ccontr)
    assume "\<not> k \<le> 1023"
    then have "(2::real) powi 1024 \<le> 2 powi k" by (intro power_int_increasing) auto
    then show False using k(1) assms(2) by simp
  qed
  show ?thesis
  proof (cases "- 1022 \<le> k")
    case True
    then show ?thesis
      using binary64_exponent_eq [OF True hi _ k(2)] k(1) by (simp add: k_def)
  next
    case False
    then have "(2::real) powi (k + 1) \<le> 2 powi (- 1022 + 1)"
      by (intro power_int_increasing) auto
    then have "\<bar>x\<bar> < 2 powi (- 1022 + 1)" using k(2) by simp
    then have "binary64_exponent x = - 1022"
      by (intro binary64_exponent_eq) auto
    then show ?thesis using False by (simp add: k_def)
  qed
qed
















text \<open>The three theorems at the concrete queue.\<close>

lemma ex_order_ok: "heap_ok ex_order"
  by (simp add: heap_ok_def ex_order_def)

lemma ex_queue_wf: "wf_queue (ex_queue b)"
  by (simp add: wf_queue_def ex_queue_def ex_goal_def ex_other_def)

lemma ex_queue_goal:
  "heap_element ex_goal = Some 0" "heap_data (ex_queue b) 0 = Some ex_goal"
  "0 \<in> set (vector (ex_queue b))" "weight_of (ex_queue b) 0 = 1 / 10"
  by (simp_all add: ex_queue_def ex_goal_def weight_of_def)

theorem region_reset_witness:
  "heap_ok ex_order \<and> wf_queue (ex_queue False) \<and>
   heap_element ex_goal = Some 0 \<and> heap_data (ex_queue False) 0 = Some ex_goal \<and>
   (\<exists>s'. penalizeWeightedGoal ex_order ex_goal (ex_queue False) = Inr s' \<and>
      (\<forall>h \<in> set (vector s'). weight_of s' h = 0.5) \<and>
      max_sampled_goals s' = 15 \<and> unat (max_sampled_goals s') = 15 \<and> sample_goals s')"
proof -
  have c: "weight ex_goal < 0.2 \<and> \<not> sample_goals (ex_queue False)"
    by (simp add: ex_goal_def ex_queue_def)
  have m: "max_sampled_goals (ex_queue False) = 5"
    by (simp add: ex_queue_def)
  from region_reset [OF ex_order_ok ex_queue_wf ex_queue_goal(1,2), of False]
  have "\<exists>s'. penalizeWeightedGoal ex_order ex_goal (ex_queue False) = Inr s' \<and>
      (\<forall>h \<in> set (vector s'). weight_of s' h = 0.5) \<and>
      max_sampled_goals s' = 15 \<and> unat (max_sampled_goals s') = 15 \<and> sample_goals s'"
    unfolding if_P [OF c] m by auto
  then show ?thesis
    using ex_order_ok ex_queue_wf [of False] ex_queue_goal(1) ex_queue_goal(2) [of False] by blast
qed

text \<open>
  A paused object and a goal of weight 0.2: the call penalizes the weight to 1/6, below
  0.2, and there is no reset (the other goal keeps 0.9, the target stays 5, the flag
  stays false).
\<close>

theorem region_reset_counterexample:
  "\<not> sample_goals ex_boundary \<and> weight_of ex_boundary 0 = 1 / 5 \<and> (1 / 6 :: real) < 0.2 \<and>
   map_sum id (\<lambda>s'. (weight_of s' 0, weight_of s' 1, max_sampled_goals s', sample_goals s'))
     (penalizeWeightedGoal ex_order ex_goal ex_boundary) = Inr (1 / 6, 9 / 10, 5, False)"
  by (simp add: ex_boundary_def ex_queue_def ex_goal_def ex_other_def ex_order_def weight_of_def
        penalizeWeightedGoal_def prim_defs Let_def)




subsection \<open>Selection and the empty region\<close>

text \<open>
  The test of the two functions and what \<open>sampleWeightedGoal\<close> returns when the queue has
  a live top element with data \<open>d\<close>: the out-parameter with the state, the weight and the
  heap handle of \<open>d\<close>, and the object as before, with three reads added to the trace.
\<close>

lemma sample_results:
  fixes s :: "'a samples_state"
  shows "(sampleWeightedGoal g s = Inl EmptyRegion \<longleftrightarrow> states s = []) \<and>
   (sampleConsecutiveGoal g s = Inl EmptyRegion \<longleftrightarrow> states s = []) \<and>
   (states s \<noteq> [] \<and> vector s = e # es \<and> heap_data s e = Some d \<longrightarrow>
      sampleWeightedGoal g s =
        Inr (g\<lparr>state := state d, weight := weight d, heap_element := heap_element d\<rparr>,
             s\<lparr>trace := trace s @ [Read GoalCollection, Read WeightQueue, Read WeightQueue]\<rparr>))"
  by (auto simp: sampleWeightedGoal_def sampleConsecutiveGoal_def GoalStates_sampleGoal_def
        prim_defs Let_def split: option.splits list.splits)

lemma sample_results_example:
  "sampleWeightedGoal ex_other (ex_queue True) =
     Inr (ex_goal, (ex_queue True)\<lparr>trace := [Read GoalCollection, Read WeightQueue, Read WeightQueue]\<rparr>) \<and>
   sampleWeightedGoal ex_other ex_fresh = Inl EmptyRegion \<and>
   sampleConsecutiveGoal ex_other ex_fresh = Inl EmptyRegion \<and>
   map_sum id (state \<circ> fst) (sampleConsecutiveGoal ex_other (ex_queue True)) = Inr 7"
proof -
  have a: "states (ex_queue True) \<noteq> []" "vector (ex_queue True) = [0, 1]"
    "heap_data (ex_queue True) 0 = Some ex_goal" "trace (ex_queue True) = []"
    by (simp_all add: ex_queue_def)
  have b: "states ex_fresh = []"
    by (simp add: ex_fresh_def setNewStateCallback_def WeightedGoalRegionSamples_def)
  have c: "ex_other\<lparr>state := state ex_goal, weight := weight ex_goal,
                    heap_element := heap_element ex_goal\<rparr> = ex_goal"
    by (simp add: ex_other_def ex_goal_def)
  have d: "map_sum id (state \<circ> fst) (sampleConsecutiveGoal ex_other (ex_queue True)) = Inr 7"
    by (simp add: sampleConsecutiveGoal_def GoalStates_sampleGoal_def ex_queue_def prim_defs)
  show ?thesis
    using sample_results [of ex_other "ex_queue True" 0 "[1]" ex_goal]
      sample_results [of ex_other ex_fresh]
    by (simp add: a b c d)
qed

text \<open>
  Claim C6: the two functions throw the empty-region exception exactly when no goal has
  been accepted into the store, and otherwise \<open>sampleWeightedGoal\<close> returns the goal on top
  of the queue. The code does not do the second. Its test (line 301) reads \<open>states_\<close> and the
  statements after it read the queue, while \<open>addState\<close> (line 207) and the sampling thread
  (line 140) append to \<open>states_\<close> only: nothing in the two files inserts into the queue. On
  a new object after \<open>addState(7)\<close>, and on a started object after the thread has added its
  first batch, the list of goal states is not empty and the queue is: the test passes,
  \<open>top()\<close> is a null pointer and line 306 dereferences it. The call neither throws the
  empty-region exception nor returns a goal.
\<close>

theorem sampleWeightedGoal_empty_queue:
  "states (addState 7 ex_fresh) = [7] \<and> vector (addState 7 ex_fresh) = [] \<and>
   sampleWeightedGoal ex_goal (addState 7 ex_fresh) = Inl InvalidPointer \<and>
   run ex_si ex_order ex_sampler [AddState 7, SampleWeighted ex_goal] ex_fresh = Inl InvalidPointer \<and>
   map_sum id (\<lambda>s. (states s, vector s)) (run ex_si ex_order ex_sampler [Thread, Thread] ex_started) =
     Inr ([1, 2, 3], []) \<and>
   run ex_si ex_order ex_sampler [Thread, Thread, SampleWeighted ex_goal] ex_started = Inl InvalidPointer"
  by (simp add: ex_fresh_def ex_started_def ex_si_def ex_sampler_def setNewStateCallback_def
        WeightedGoalRegionSamples_def startSampling_def thread_step_def begin_computation_def
        isSampling_def loop_iteration_def thread_epilogue_def addState_def sampleWeightedGoal_def
        prim_defs Let_def)

subsection \<open>Insertion paths and the new-state callback\<close>

text \<open>The insertions of the sampling thread for one batch of candidates.\<close>

lemma add_sampled_states_result:
  fixes s :: "'a samples_state"
  shows "\<exists>b' s'. add_sampled_states si xs (b, s) = (b', s') \<and>
     b' = (b \<or> valid_candidates si xs \<noteq> []) \<and>
     states s' = states s @ valid_candidates si xs \<and>
     trace s' = trace s @ concat (map (\<lambda>x. [Acquire, Write GoalCollection, Release])
                                   (valid_candidates si xs)) \<and>
     num_sampled_goals s' = num_sampled_goals s + of_nat (length (valid_candidates si xs)) \<and>
     max_sampled_goals s' = max_sampled_goals s \<and> sample_goals s' = sample_goals s \<and>
     samplingAttempts s' = samplingAttempts s \<and>
     terminateSamplingThread s' = terminateSamplingThread s \<and>
     samplingThread s' = samplingThread s \<and> thread_pc s' = thread_pc s \<and>
     callback s' = callback s \<and> vector s' = vector s \<and> heap_data s' = heap_data s"
proof (induction xs arbitrary: b s)
  case Nil
  then show ?case by (simp add: valid_candidates_def)
next
  case (Cons x xs)
  show ?case
  proof (cases "satisfiesBounds si x \<and> isValid si x")
    case False
    then show ?thesis using Cons.IH [of b s] by (auto simp: valid_candidates_def)
  next
    case True
    let ?s1 = "unlock (GoalStates_addState x
                 (lock_guard (s\<lparr>num_sampled_goals := num_sampled_goals s + 1\<rparr>)))"
    from Cons.IH [of True ?s1] True show ?thesis
      by (auto simp: valid_candidates_def prim_defs)
  qed
qed

text \<open>
  Claim C7, as amended. Every insertion appends exactly one state to the store:
  \<open>addState\<close> appends its argument, the sampling thread appends each candidate that
  passes the two checks, and \<open>addStateIfDifferent\<close> appends its argument when it reports
  \<open>true\<close> and nothing when it reports \<open>false\<close>. Each append happens between \<open>Acquire\<close> and
  \<open>Release\<close>. Only \<open>addStateIfDifferent\<close> invokes the new-state callback: when it has
  added the state and a callback is registered, the call follows the \<open>Release\<close>.
  \<open>addState\<close> and the insertion of the sampling thread invoke no callback.
\<close>

theorem insertion_paths:
  fixes s :: "'a samples_state"
  shows "states (addState st s) = states s @ [st] \<and>
     trace (addState st s) = trace s @ [Acquire, Write GoalCollection, Release] \<and>
     states (snd (add_sampled_states si xs (b, s))) = states s @ valid_candidates si xs \<and>
     trace (snd (add_sampled_states si xs (b, s))) =
       trace s @ concat (map (\<lambda>x. [Acquire, Write GoalCollection, Release])
                          (valid_candidates si xs)) \<and>
     (case addStateIfDifferent si st minDistance s of
        (added, s') \<Rightarrow>
          if added
          then states s' = states s @ [st] \<and>
               trace s' = trace s @ [Acquire, Read GoalCollection, Write GoalCollection] @
                 (if callback s then [Read GoalCollection, Release, Callback st] else [Release])
          else states s' = states s \<and>
               trace s' = trace s @ [Acquire, Read GoalCollection, Release])"
proof -
  from add_sampled_states_result [of si xs b s] obtain b' s' where
    "add_sampled_states si xs (b, s) = (b', s')"
    "states s' = states s @ valid_candidates si xs"
    "trace s' = trace s @ concat (map (\<lambda>x. [Acquire, Write GoalCollection, Release])
                                   (valid_candidates si xs))"
    by blast
  then show ?thesis
    by (simp add: addState_def addStateIfDifferent_def GoalStates_distanceGoal_def
          prim_defs Let_def)
qed

theorem insertion_paths_witness:
  "callback ex_fresh \<and>
   states (addState 7 ex_fresh) = [7] \<and>
   trace (addState 7 ex_fresh) = [Acquire, Write GoalCollection, Release] \<and>
   addStateIfDifferent ex_si 9 1 (addState 7 ex_fresh) =
     (True, (addState 7 ex_fresh)\<lparr>states := [7, 9],
        trace := [Acquire, Write GoalCollection, Release,
                  Acquire, Read GoalCollection, Write GoalCollection, Read GoalCollection,
                  Release, Callback 9]\<rparr>) \<and>
   fst (addStateIfDifferent ex_si 8 1 (addState 7 ex_fresh)) = False"
proof -
  have a: "callback ex_fresh" "states ex_fresh = []" "trace ex_fresh = []"
    by (simp_all add: ex_fresh_def setNewStateCallback_def WeightedGoalRegionSamples_def)
  have b: "addStateIfDifferent ex_si 9 1 (addState 7 ex_fresh) =
     (True, (addState 7 ex_fresh)\<lparr>states := [7, 9],
        trace := [Acquire, Write GoalCollection, Release,
                  Acquire, Read GoalCollection, Write GoalCollection, Read GoalCollection,
                  Release, Callback 9]\<rparr>)"
    by (simp add: addStateIfDifferent_def addState_def GoalStates_distanceGoal_def prim_defs
          a ex_si_def)
  have c: "fst (addStateIfDifferent ex_si 8 1 (addState 7 ex_fresh)) = False"
    by (simp add: addStateIfDifferent_def addState_def GoalStates_distanceGoal_def prim_defs
          a ex_si_def)
  show ?thesis
    using insertion_paths [where st = 7 and s = ex_fresh and si = ex_si and xs = "[]"
        and b = False and minDistance = 1]
      insertion_paths [where st = 9 and s = "addState 7 ex_fresh" and si = ex_si and xs = "[]"
        and b = False and minDistance = 1]
    by (simp add: a b c)
qed

text \<open>
  With a callback registered, \<open>addState\<close> and a pass of the sampling thread add states
  and the trace shows no call of the callback.
\<close>

theorem callback_counterexample:
  "callback ex_fresh \<and>
   states (addState 7 ex_fresh) = [7] \<and>
   trace (addState 7 ex_fresh) = [Acquire, Write GoalCollection, Release] \<and>
   callback ex_looping \<and> thread_pc ex_looping = InLoop \<and>
   states (thread_step ex_si ex_sampler ex_looping) = [1, 2, 3] \<and>
   new_events ex_looping (thread_step ex_si ex_sampler ex_looping) =
     [Acquire, Release, SamplerCall,
      Acquire, Write GoalCollection, Release,
      Acquire, Write GoalCollection, Release,
      Acquire, Write GoalCollection, Release]"
  by (simp add: ex_looping_def ex_fresh_def setNewStateCallback_def WeightedGoalRegionSamples_def
        startSampling_def thread_step_def begin_computation_def isSampling_def
        loop_iteration_def addState_def ex_si_def ex_sampler_def new_events_def prim_defs Let_def)

subsection \<open>The mutex\<close>

lemma reset_weights_trace:
  fixes s :: "'a samples_state"
  shows "reset_weights upd gs s = Inr s' \<Longrightarrow>
     \<exists>evs. trace s' = trace s @ evs \<and> set evs \<subseteq> {Write WeightQueue}"
proof (induction gs arbitrary: s)
  case Nil
  then show ?case by simp
next
  case (Cons g gs)
  from Cons.prems obtain e where
    "reset_weights upd gs (BinaryHeap_update upd e (set_weight e 0.5 s)) = Inr s'"
    by (auto split: option.splits)
  from Cons.IH [OF this] show ?case by (auto simp: prim_defs)
qed

lemma unguarded_new_events:
  assumes "trace s' = trace s @ e # evs" and "e = Read r \<or> e = Write r"
  shows "\<not> guarded False (new_events s s')"
  using assms by (auto simp: new_events_def)

lemma no_acquire_new_events:
  assumes "trace s' = trace s @ evs" and "Acquire \<notin> set evs"
  shows "Acquire \<notin> set (new_events s s')"
  using assms by (simp add: new_events_def)

lemma penalize_unlocked:
  fixes s :: "'a samples_state"
  assumes "penalizeWeightedGoal upd g s = Inr s'"
  shows "Acquire \<notin> set (new_events s s') \<and> \<not> guarded False (new_events s s')"
proof -
  from assms obtain e d where ed: "heap_element g = Some e" "heap_data s e = Some d"
    by (auto simp: penalizeWeightedGoal_def split: option.splits)
  let ?s2 = "BinaryHeap_update upd e
               (set_weight e (weight d / (weight d + 1)) (emit (Read WeightQueue) s))"
  have t2: "trace ?s2 = trace s @ [Read WeightQueue, Write WeightQueue, Write WeightQueue]"
    by (simp add: prim_defs)
  show ?thesis
  proof (cases "weight d < 0.2 \<and> \<not> sample_goals ?s2")
    case False
    then have "s' = ?s2"
      using assms ed by (auto simp: penalizeWeightedGoal_def Let_def split: if_splits)
    then show ?thesis using t2 by (simp add: new_events_def)
  next
    case True
    then obtain s4 where s4:
      "reset_weights upd (vector ?s2) (emit (Read WeightQueue) ?s2) = Inr s4"
      "s' = s4\<lparr>sample_goals := True, max_sampled_goals := max_sampled_goals s4 + 10\<rparr>"
      using assms ed
      by (auto simp: penalizeWeightedGoal_def Let_def BinaryHeap_getContent_def
            split: if_splits sum.splits)
    from reset_weights_trace [OF s4(1)] obtain evs where evs:
      "trace s4 = trace (emit (Read WeightQueue) ?s2) @ evs" "set evs \<subseteq> {Write WeightQueue}"
      by blast
    have "trace s' = trace s @ Read WeightQueue #
        ([Write WeightQueue, Write WeightQueue, Read WeightQueue] @ evs)"
      using evs(1) s4(2) t2 by (simp add: emit_def)
    moreover have "Acquire \<notin> set (Read WeightQueue #
        ([Write WeightQueue, Write WeightQueue, Read WeightQueue] @ evs))"
      using evs(2) by auto
    ultimately show ?thesis
      using unguarded_new_events [of s' s "Read WeightQueue" _ WeightQueue]
        no_acquire_new_events [of s' s] by blast
  qed
qed

text \<open>
  Claim C8, as amended. \<open>addState\<close>, \<open>clear\<close>, \<open>addStateIfDifferent\<close>, the insertions of the
  sampling thread, \<open>hasStates\<close>, \<open>getStateCount\<close>, \<open>maxSampleCount\<close>, \<open>distanceGoal\<close>,
  \<open>getState\<close> and \<open>sampleGoal\<close> access the goal collection (and \<open>clear\<close> the queue) between
  \<open>Acquire\<close> and \<open>Release\<close>. \<open>penalizeWeightedGoal\<close>, \<open>rewardWeightedGoal\<close>,
  \<open>sampleWeightedGoal\<close> and \<open>sampleConsecutiveGoal\<close> never acquire the mutex: their
  accesses to the queue and to the goal collection happen outside it.
\<close>

theorem lock_discipline:
  fixes s :: "'a samples_state"
  shows "new_events s (addState st s) = [Acquire, Write GoalCollection, Release] \<and>
     new_events s (clear s) = [Acquire, Write GoalCollection, Write WeightQueue, Release] \<and>
     guarded False (new_events s (snd (addStateIfDifferent si st m s))) \<and>
     guarded False (new_events s (snd (add_sampled_states si xs (b, s)))) \<and>
     new_events s (snd (hasStates s)) = [Acquire, Read GoalCollection, Release] \<and>
     new_events s (snd (getStateCount s)) = [Acquire, Read GoalCollection, Release] \<and>
     new_events s (snd (maxSampleCount s)) = [Acquire, Read GoalCollection, Release] \<and>
     new_events s (snd (distanceGoal si st s)) = [Acquire, Read GoalCollection, Release] \<and>
     (\<forall>x s'. getState i s = Inr (x, s') \<longrightarrow>
        new_events s s' = [Acquire, Read GoalCollection, Release]) \<and>
     (\<forall>x s'. sampleGoal s = Inr (x, s') \<longrightarrow>
        new_events s s' = [Acquire, Write GoalCollection, Release]) \<and>
     (\<forall>s'. penalizeWeightedGoal upd g s = Inr s' \<longrightarrow>
        Acquire \<notin> set (new_events s s') \<and> \<not> guarded False (new_events s s')) \<and>
     (\<forall>s'. rewardWeightedGoal upd g s = Inr s' \<longrightarrow>
        Acquire \<notin> set (new_events s s') \<and> \<not> guarded False (new_events s s')) \<and>
     (\<forall>g' s'. sampleWeightedGoal g s = Inr (g', s') \<longrightarrow>
        new_events s s' = [Read GoalCollection, Read WeightQueue, Read WeightQueue]) \<and>
     (\<forall>g' s'. sampleConsecutiveGoal g s = Inr (g', s') \<longrightarrow>
        new_events s s' = [Read GoalCollection, Write GoalCollection])"
proof -
  have 1: "new_events s (addState st s) = [Acquire, Write GoalCollection, Release]"
    by (simp add: new_events_def addState_def prim_defs)
  have 2: "new_events s (clear s) = [Acquire, Write GoalCollection, Write WeightQueue, Release]"
    by (simp add: new_events_def clear_def prim_defs)
  have 3: "guarded False (new_events s (snd (addStateIfDifferent si st m s)))"
    by (simp add: new_events_def addStateIfDifferent_def GoalStates_distanceGoal_def
          prim_defs Let_def)
  have 4: "guarded False (new_events s (snd (add_sampled_states si xs (b, s))))"
  proof -
    from add_sampled_states_result [of si xs b s] obtain b' s' where
      "add_sampled_states si xs (b, s) = (b', s')"
      "trace s' = trace s @ concat (map (\<lambda>x. [Acquire, Write GoalCollection, Release])
                                     (valid_candidates si xs))"
      by blast
    moreover have "guarded False (concat (map (\<lambda>x. [Acquire, Write GoalCollection, Release]) ys))"
      for ys :: "'a list"
      by (induction ys) simp_all
    ultimately show ?thesis by (simp add: new_events_def)
  qed
  have 5: "new_events s (snd (hasStates s)) = [Acquire, Read GoalCollection, Release]"
    "new_events s (snd (getStateCount s)) = [Acquire, Read GoalCollection, Release]"
    "new_events s (snd (maxSampleCount s)) = [Acquire, Read GoalCollection, Release]"
    "new_events s (snd (distanceGoal si st s)) = [Acquire, Read GoalCollection, Release]"
    by (simp_all add: new_events_def hasStates_def getStateCount_def maxSampleCount_def
          distanceGoal_def GoalStates_hasStates_def GoalStates_getStateCount_def
          GoalStates_maxSampleCount_def GoalStates_distanceGoal_def prim_defs)
  have 6: "\<forall>x s'. getState i s = Inr (x, s') \<longrightarrow>
        new_events s s' = [Acquire, Read GoalCollection, Release]"
    by (auto simp: new_events_def getState_def GoalStates_getState_def prim_defs
          split: if_splits)
  have 7: "\<forall>x s'. sampleGoal s = Inr (x, s') \<longrightarrow>
        new_events s s' = [Acquire, Write GoalCollection, Release]"
    by (auto simp: new_events_def sampleGoal_def GoalStates_sampleGoal_def prim_defs
          split: if_splits)
  have 8: "\<forall>s'. penalizeWeightedGoal upd g s = Inr s' \<longrightarrow>
        Acquire \<notin> set (new_events s s') \<and> \<not> guarded False (new_events s s')"
    using penalize_unlocked by blast
  have 9: "\<forall>s'. rewardWeightedGoal upd g s = Inr s' \<longrightarrow>
        Acquire \<notin> set (new_events s s') \<and> \<not> guarded False (new_events s s')"
    by (auto simp: new_events_def rewardWeightedGoal_def prim_defs Let_def
          split: option.splits if_splits)
  have 10: "\<forall>g' s'. sampleWeightedGoal g s = Inr (g', s') \<longrightarrow>
        new_events s s' = [Read GoalCollection, Read WeightQueue, Read WeightQueue]"
    by (auto simp: new_events_def sampleWeightedGoal_def prim_defs Let_def
          split: option.splits if_splits list.splits)
  have 11: "\<forall>g' s'. sampleConsecutiveGoal g s = Inr (g', s') \<longrightarrow>
        new_events s s' = [Read GoalCollection, Write GoalCollection]"
    by (auto simp: new_events_def sampleConsecutiveGoal_def GoalStates_sampleGoal_def prim_defs
          split: if_splits)
  show ?thesis using 1 2 3 4 5 6 7 8 9 10 11 by blast
qed

text \<open>
  A call of \<open>penalizeWeightedGoal\<close> changes a weight of the queue from 1/10 to 1/11 with
  the three accesses its trace shows and no \<open>Acquire\<close>; \<open>rewardWeightedGoal\<close> and
  \<open>sampleWeightedGoal\<close> likewise.
\<close>

theorem lock_counterexample:
  "map_sum id (new_events (ex_queue True))
     (penalizeWeightedGoal ex_order ex_goal (ex_queue True)) =
     Inr [Read WeightQueue, Write WeightQueue, Write WeightQueue] \<and>
   weight_of (ex_queue True) 0 = 1 / 10 \<and>
   map_sum id (\<lambda>s'. weight_of s' 0) (penalizeWeightedGoal ex_order ex_goal (ex_queue True)) =
     Inr (1 / 11) \<and>
   \<not> guarded False [Read WeightQueue, Write WeightQueue, Write WeightQueue] \<and>
   map_sum id (new_events (ex_queue True))
     (rewardWeightedGoal ex_order ex_goal (ex_queue True)) =
     Inr [Read WeightQueue, Write WeightQueue, Write WeightQueue] \<and>
   map_sum id (new_events (ex_queue True) \<circ> snd) (sampleWeightedGoal ex_other (ex_queue True)) =
     Inr [Read GoalCollection, Read WeightQueue, Read WeightQueue]"
  by (simp add: penalizeWeightedGoal_def rewardWeightedGoal_def sampleWeightedGoal_def
        ex_queue_def ex_goal_def ex_order_def weight_of_def new_events_def prim_defs Let_def)

theorem lock_discipline_witness:
  "new_events ex_fresh (addState 7 ex_fresh) = [Acquire, Write GoalCollection, Release] \<and>
   getState 0 (ex_queue True) =
     Inr (7, (ex_queue True)\<lparr>trace := [Acquire, Read GoalCollection, Release]\<rparr>) \<and>
   new_events (ex_queue True)
     ((ex_queue True)\<lparr>trace := [Acquire, Read GoalCollection, Release]\<rparr>) =
     [Acquire, Read GoalCollection, Release] \<and>
   sampleWeightedGoal ex_other (ex_queue True) =
     Inr (ex_goal, (ex_queue True)\<lparr>trace := [Read GoalCollection, Read WeightQueue, Read WeightQueue]\<rparr>) \<and>
   new_events (ex_queue True)
     ((ex_queue True)\<lparr>trace := [Read GoalCollection, Read WeightQueue, Read WeightQueue]\<rparr>) =
     [Read GoalCollection, Read WeightQueue, Read WeightQueue]"
proof -
  have a: "getState 0 (ex_queue True) =
     Inr (7, (ex_queue True)\<lparr>trace := [Acquire, Read GoalCollection, Release]\<rparr>)"
    by (simp add: getState_def GoalStates_getState_def ex_queue_def prim_defs)
  have b: "sampleWeightedGoal ex_other (ex_queue True) =
     Inr (ex_goal, (ex_queue True)\<lparr>trace := [Read GoalCollection, Read WeightQueue, Read WeightQueue]\<rparr>)"
    by (simp add: sampleWeightedGoal_def ex_queue_def ex_goal_def ex_other_def prim_defs)
  show ?thesis
    using lock_discipline [where s = "ex_queue True" and i = 0 and g = ex_other]
      lock_discipline [where s = ex_fresh and st = 7]
    by (simp add: a b)
qed

subsection \<open>The sampling thread\<close>

lemma isSampling_result:
  "isSampling s = (\<not> terminateSamplingThread s \<and> samplingThread s,
                   s\<lparr>trace := trace s @ [Acquire, Release]\<rparr>)"
  by (simp add: isSampling_def prim_defs Let_def)

text \<open>One pass through the loop body, by its effect on each member.\<close>

lemma loop_iteration_idle:
  "max_sampled_goals s \<le> num_sampled_goals s \<Longrightarrow> loop_iteration si f s = s"
  by (simp add: loop_iteration_def not_less [symmetric])

lemma loop_iteration_result:
  fixes s :: "'a samples_state"
  assumes "num_sampled_goals s < max_sampled_goals s"
  shows "states (loop_iteration si f s) = states s @ valid_candidates si (f s)"
    and "num_sampled_goals (loop_iteration si f s) =
           num_sampled_goals s + of_nat (length (valid_candidates si (f s)))"
    and "max_sampled_goals (loop_iteration si f s) = max_sampled_goals s"
    and "sample_goals (loop_iteration si f s) =
           (sample_goals s \<and> num_sampled_goals (loop_iteration si f s) < max_sampled_goals s)"
    and "trace (loop_iteration si f s) = trace s @ SamplerCall #
           concat (map (\<lambda>x. [Acquire, Write GoalCollection, Release]) (valid_candidates si (f s)))"
    and "terminateSamplingThread (loop_iteration si f s) = terminateSamplingThread s"
    and "samplingThread (loop_iteration si f s) = samplingThread s"
    and "thread_pc (loop_iteration si f s) = thread_pc s"
proof -
  let ?v = "valid_candidates si (f s)"
  from add_sampled_states_result [of si "f s" False "emit SamplerCall s"]
  obtain b1 s1 where s1:
    "add_sampled_states si (f s) (False, emit SamplerCall s) = (b1, s1)"
    "states s1 = states (emit SamplerCall s) @ ?v"
    "trace s1 = trace (emit SamplerCall s) @
       concat (map (\<lambda>x. [Acquire, Write GoalCollection, Release]) ?v)"
    "num_sampled_goals s1 = num_sampled_goals (emit SamplerCall s) + of_nat (length ?v)"
    "max_sampled_goals s1 = max_sampled_goals (emit SamplerCall s)"
    "sample_goals s1 = sample_goals (emit SamplerCall s)"
    "terminateSamplingThread s1 = terminateSamplingThread (emit SamplerCall s)"
    "samplingThread s1 = samplingThread (emit SamplerCall s)"
    "thread_pc s1 = thread_pc (emit SamplerCall s)"
    by blast
  have eq: "loop_iteration si f s =
      (let s2 = (if num_sampled_goals s1 \<ge> max_sampled_goals s1
                 then s1\<lparr>sample_goals := False\<rparr> else s1)
       in if b1 then s2\<lparr>samplingAttempts := samplingAttempts s2 + 1\<rparr> else s2)"
    using assms(1) s1(1) by (simp add: loop_iteration_def Let_def)
  show "states (loop_iteration si f s) = states s @ ?v"
    and n: "num_sampled_goals (loop_iteration si f s) = num_sampled_goals s + of_nat (length ?v)"
    and "max_sampled_goals (loop_iteration si f s) = max_sampled_goals s"
    and "trace (loop_iteration si f s) = trace s @ SamplerCall #
           concat (map (\<lambda>x. [Acquire, Write GoalCollection, Release]) ?v)"
    and "terminateSamplingThread (loop_iteration si f s) = terminateSamplingThread s"
    and "samplingThread (loop_iteration si f s) = samplingThread s"
    and "thread_pc (loop_iteration si f s) = thread_pc s"
    using s1 by (simp_all add: eq Let_def emit_def)
  show "sample_goals (loop_iteration si f s) =
           (sample_goals s \<and> num_sampled_goals (loop_iteration si f s) < max_sampled_goals s)"
    unfolding n using s1 by (auto simp: eq Let_def emit_def)
qed

lemma loop_iteration_frame:
  fixes s :: "'a samples_state"
  shows "terminateSamplingThread (loop_iteration si f s) = terminateSamplingThread s \<and>
     samplingThread (loop_iteration si f s) = samplingThread s \<and>
     thread_pc (loop_iteration si f s) = thread_pc s"
proof (cases "num_sampled_goals s < max_sampled_goals s")
  case True
  from loop_iteration_result(6,7,8) [OF this] show ?thesis by simp
next
  case False
  then show ?thesis by (simp add: loop_iteration_def)
qed

text \<open>A step of the thread at the head of its loop.\<close>

lemma thread_step_in_loop:
  fixes s :: "'a samples_state"
  assumes "thread_pc s = InLoop"
  shows "thread_step si f s =
     (if \<not> terminateSamplingThread s \<and> samplingThread s
      then (case f of Some g \<Rightarrow> loop_iteration si g (s\<lparr>trace := trace s @ [Acquire, Release]\<rparr>)
            | None \<Rightarrow> s\<lparr>trace := trace s @ [Acquire, Release]\<rparr>)
      else thread_epilogue (s\<lparr>trace := trace s @ [Acquire, Release]\<rparr>))"
  using assms by (simp add: thread_step_def isSampling_result)

lemma thread_step_keeps_looping:
  fixes s :: "'a samples_state"
  assumes "thread_pc s = InLoop" and "\<not> terminateSamplingThread s" and "samplingThread s"
  shows "thread_pc (thread_step si f s) = InLoop \<and>
     \<not> terminateSamplingThread (thread_step si f s) \<and> samplingThread (thread_step si f s)"
proof (cases f)
  case None
  then show ?thesis using assms by (simp add: thread_step_in_loop)
next
  case (Some g)
  then show ?thesis
    using assms loop_iteration_frame [of si g "s\<lparr>trace := trace s @ [Acquire, Release]\<rparr>"]
    by (simp add: thread_step_in_loop)
qed

lemma run_threads_keep_looping:
  fixes s :: "'a samples_state"
  assumes "thread_pc s = InLoop" and "\<not> terminateSamplingThread s" and "samplingThread s"
  shows "\<exists>s'. run si upd f (replicate n Thread) s = Inr s' \<and> thread_pc s' = InLoop \<and>
     \<not> terminateSamplingThread s' \<and> samplingThread s'"
  using assms
proof (induction n arbitrary: s)
  case 0
  then show ?case by simp
next
  case (Suc n)
  from thread_step_keeps_looping [OF Suc.prems, of si f]
  have "thread_pc (thread_step si f s) = InLoop" "\<not> terminateSamplingThread (thread_step si f s)"
    "samplingThread (thread_step si f s)" by simp_all
  from Suc.IH [OF this] show ?case by simp
qed

text \<open>
  The two steps that \<open>stopSampling\<close> gives the thread after it has set the stop flag are
  enough for the thread function to return.
\<close>

lemma join_returns:
  fixes s :: "'a samples_state"
  assumes "terminateSamplingThread s"
  shows "thread_pc (run_thread 2 si f s) = Returned \<or> thread_pc (run_thread 2 si f s) = NoThread"
  using assms
  by (cases "thread_pc s")
     (auto simp: numeral_2_eq_2 thread_step_def begin_computation_def isSampling_result
        thread_epilogue_def prim_defs Let_def)

lemma thread_step_idle:
  fixes s :: "'a samples_state"
  assumes "thread_pc s = InLoop" and "\<not> terminateSamplingThread s" and "samplingThread s"
    and "max_sampled_goals s \<le> num_sampled_goals s"
  shows "thread_step si f s = s\<lparr>trace := trace s @ [Acquire, Release]\<rparr>"
proof -
  have "loop_iteration si g (s\<lparr>trace := trace s @ [Acquire, Release]\<rparr>) =
      s\<lparr>trace := trace s @ [Acquire, Release]\<rparr>" for g
    using assms(4) by (simp add: loop_iteration_idle)
  then show ?thesis
    using assms by (simp add: thread_step_in_loop split: option.splits)
qed

text \<open>
  Claim C3, as amended. With the thread at the head of \<open>while (isSampling())\<close>: if a stop
  has been requested (or the thread handle is null), the next step leaves the loop and
  sets \<open>terminateSamplingThread_\<close>. Otherwise no number of steps of the thread leaves the
  loop, whatever the counters are; and once \<open>num_sampled_goals_\<close> has reached
  \<open>max_sampled_goals_\<close>, a step locks and unlocks the mutex and changes nothing else: the
  thread stays in the loop without calling the sampler.
\<close>

theorem sampling_thread_exit:
  fixes s :: "'a samples_state"
  assumes "thread_pc s = InLoop"
  shows "(terminateSamplingThread s \<or> \<not> samplingThread s \<longrightarrow>
            thread_pc (thread_step si f s) = Returned \<and>
            terminateSamplingThread (thread_step si f s)) \<and>
     (\<not> terminateSamplingThread s \<and> samplingThread s \<longrightarrow>
        (\<forall>n. \<exists>s'. run si upd f (replicate n Thread) s = Inr s' \<and> thread_pc s' = InLoop \<and>
                \<not> terminateSamplingThread s')) \<and>
     (\<not> terminateSamplingThread s \<and> samplingThread s \<and>
      max_sampled_goals s \<le> num_sampled_goals s \<longrightarrow>
        thread_step si f s = s\<lparr>trace := trace s @ [Acquire, Release]\<rparr>)"
proof (intro conjI impI allI)
  assume "terminateSamplingThread s \<or> \<not> samplingThread s"
  then show "thread_pc (thread_step si f s) = Returned"
    and "terminateSamplingThread (thread_step si f s)"
    using assms by (auto simp: thread_step_in_loop thread_epilogue_def prim_defs)
next
  fix n
  assume "\<not> terminateSamplingThread s \<and> samplingThread s"
  with run_threads_keep_looping [OF assms, of si upd f n]
  show "\<exists>s'. run si upd f (replicate n Thread) s = Inr s' \<and> thread_pc s' = InLoop \<and>
          \<not> terminateSamplingThread s'"
    by blast
next
  assume "\<not> terminateSamplingThread s \<and> samplingThread s \<and>
      max_sampled_goals s \<le> num_sampled_goals s"
  then show "thread_step si f s = s\<lparr>trace := trace s @ [Acquire, Release]\<rparr>"
    using thread_step_idle [OF assms, of si f] by simp
qed

lemmas thread_defs = WeightedGoalRegionSamples_def startSampling_def thread_step_def
  begin_computation_def isSampling_def loop_iteration_def thread_epilogue_def stopSampling_def

text \<open>
  Started with a target of 5 and three valid candidates per call, the thread has reached
  the target after three steps; three steps later it is still in the loop and
  \<open>terminateSamplingThread_\<close> is still false.
\<close>

theorem sampling_thread_exit_counterexample:
  "map_sum id observe
     (run ex_si ex_order ex_sampler [Thread, Thread, Thread, Thread, Thread, Thread] ex_started) =
   Inr (6, 6, 5, False, InLoop, False)"
  by (simp add: ex_started_def ex_si_def ex_sampler_def observe_def thread_defs prim_defs Let_def)

theorem sampling_thread_exit_witness:
  "thread_pc (ex_queue False) = InLoop \<and>
   \<not> terminateSamplingThread (ex_queue False) \<and> samplingThread (ex_queue False) \<and>
   max_sampled_goals (ex_queue False) \<le> num_sampled_goals (ex_queue False) \<and>
   thread_step ex_si ex_sampler (ex_queue False) = (ex_queue False)\<lparr>trace := [Acquire, Release]\<rparr> \<and>
   (\<exists>s'. run ex_si ex_order ex_sampler (replicate 7 Thread) (ex_queue False) = Inr s' \<and>
      thread_pc s' = InLoop \<and> \<not> terminateSamplingThread s') \<and>
   thread_pc ((ex_queue False)\<lparr>terminateSamplingThread := True\<rparr>) = InLoop \<and>
   thread_pc (thread_step ex_si ex_sampler ((ex_queue False)\<lparr>terminateSamplingThread := True\<rparr>)) =
     Returned \<and>
   terminateSamplingThread
     (thread_step ex_si ex_sampler ((ex_queue False)\<lparr>terminateSamplingThread := True\<rparr>))"
proof -
  have a: "thread_pc (ex_queue False) = InLoop" "\<not> terminateSamplingThread (ex_queue False)"
    "samplingThread (ex_queue False)"
    "max_sampled_goals (ex_queue False) \<le> num_sampled_goals (ex_queue False)"
    "trace (ex_queue False) = []"
    by (simp_all add: ex_queue_def)
  have b: "thread_pc ((ex_queue False)\<lparr>terminateSamplingThread := True\<rparr>) = InLoop"
    by (simp add: ex_queue_def)
  from sampling_thread_exit [OF a(1), of ex_si ex_sampler ex_order]
    sampling_thread_exit [OF b, of ex_si ex_sampler ex_order]
  show ?thesis using a b by simp
qed

text \<open>
  The scenario of three valid candidates per call and a target of five: the states the
  thread passes through.
\<close>

lemma three_per_call_iteration:
  fixes s :: "'a samples_state"
  assumes loop: "thread_pc s = InLoop" "\<not> terminateSamplingThread s" "samplingThread s"
    and valid: "\<forall>x. satisfiesBounds si x \<and> isValid si x" and three: "\<forall>s. length (f s) = 3"
    and below: "num_sampled_goals s < max_sampled_goals s"
  shows "thread_pc (thread_step si (Some f) s) = InLoop"
    and "\<not> terminateSamplingThread (thread_step si (Some f) s)"
    and "samplingThread (thread_step si (Some f) s)"
    and "length (states (thread_step si (Some f) s)) = length (states s) + 3"
    and "num_sampled_goals (thread_step si (Some f) s) = num_sampled_goals s + 3"
    and "max_sampled_goals (thread_step si (Some f) s) = max_sampled_goals s"
    and "sample_goals (thread_step si (Some f) s) =
           (sample_goals s \<and> num_sampled_goals s + 3 < max_sampled_goals s)"
    and "sampler_calls (thread_step si (Some f) s) = sampler_calls s + 1"
proof -
  let ?s1 = "s\<lparr>trace := trace s @ [Acquire, Release]\<rparr>"
  have step: "thread_step si (Some f) s = loop_iteration si f ?s1"
    using loop by (simp add: thread_step_in_loop)
  have v: "valid_candidates si (f ?s1) = f ?s1"
    using valid by (simp add: valid_candidates_def)
  have b1: "num_sampled_goals ?s1 < max_sampled_goals ?s1" using below by simp
  note r = loop_iteration_result [OF b1, of si f, unfolded v]
  have len: "length (f ?s1) = 3" using three by simp
  show "thread_pc (thread_step si (Some f) s) = InLoop"
    and "\<not> terminateSamplingThread (thread_step si (Some f) s)"
    and "samplingThread (thread_step si (Some f) s)"
    and "length (states (thread_step si (Some f) s)) = length (states s) + 3"
    and "num_sampled_goals (thread_step si (Some f) s) = num_sampled_goals s + 3"
    and "max_sampled_goals (thread_step si (Some f) s) = max_sampled_goals s"
    using r loop len by (simp_all add: step)
  show "sample_goals (thread_step si (Some f) s) =
           (sample_goals s \<and> num_sampled_goals s + 3 < max_sampled_goals s)"
    using r(2,4) len by (simp add: step)
  have "filter (\<lambda>e. e = SamplerCall)
          (concat (map (\<lambda>x. [Acquire, Write GoalCollection, Release]) ys)) = []"
    for ys :: "'a list"
    by (induction ys) simp_all
  then show "sampler_calls (thread_step si (Some f) s) = sampler_calls s + 1"
    using r(5) by (simp add: step sampler_calls_def)
qed

lemma idle_steps:
  fixes s :: "'a samples_state"
  assumes "thread_pc s = InLoop" "\<not> terminateSamplingThread s" "samplingThread s"
    and "max_sampled_goals s \<le> num_sampled_goals s"
  shows "\<exists>s'. run si upd f (replicate n Thread) s = Inr s' \<and>
     states s' = states s \<and> num_sampled_goals s' = num_sampled_goals s \<and>
     max_sampled_goals s' = max_sampled_goals s \<and> sample_goals s' = sample_goals s \<and>
     sampler_calls s' = sampler_calls s \<and> thread_pc s' = InLoop \<and>
     \<not> terminateSamplingThread s' \<and> samplingThread s'"
  using assms
proof (induction n arbitrary: s)
  case 0
  then show ?case by simp
next
  case (Suc n)
  let ?s1 = "s\<lparr>trace := trace s @ [Acquire, Release]\<rparr>"
  have st: "thread_step si f s = ?s1"
    using thread_step_idle [OF Suc.prems] by simp
  have "thread_pc ?s1 = InLoop" "\<not> terminateSamplingThread ?s1" "samplingThread ?s1"
    "max_sampled_goals ?s1 \<le> num_sampled_goals ?s1"
    using Suc.prems by simp_all
  from Suc.IH [OF this] show ?case by (simp add: st sampler_calls_def)
qed

text \<open>
  Claim C1, as amended. The space information is set up and accepts every candidate,
  the sampler yields three candidates per call, the target is 5 and the constructor
  starts the thread. After the three steps that take the thread through its entry and
  two passes of the loop, and after any number \<open>n\<close> of further steps, the goal store holds
  exactly six states, \<open>num_sampled_goals_\<close> is 6, \<open>sample_goals_\<close> is false and the sampler
  has been called exactly twice: the count is compared with the target only between
  sampler calls, so the second batch of three is added whole.
\<close>

theorem three_per_call_target_five:
  assumes "isSetup si" and "\<forall>x. satisfiesBounds si x \<and> isValid si x"
    and "\<forall>s. length (f s) = 3"
  shows "\<exists>s. run si upd (Some f) (replicate (3 + n) Thread) (WeightedGoalRegionSamples 5 True d) = Inr s \<and>
     length (states s) = 6 \<and> num_sampled_goals s = 6 \<and> max_sampled_goals s = 5 \<and>
     \<not> sample_goals s \<and> sampler_calls s = 2 \<and> thread_pc s = InLoop"
proof -
  let ?s0 = "WeightedGoalRegionSamples 5 True d :: 'a samples_state"
  let ?s1 = "thread_step si (Some f) ?s0"
  let ?s2 = "thread_step si (Some f) ?s1"
  let ?s3 = "thread_step si (Some f) ?s2"
  have s1: "thread_pc ?s1 = InLoop" "\<not> terminateSamplingThread ?s1" "samplingThread ?s1"
    "states ?s1 = []" "num_sampled_goals ?s1 = 0" "max_sampled_goals ?s1 = 5"
    "sample_goals ?s1" "sampler_calls ?s1 = 0"
    using assms(1) by (simp_all add: thread_defs prim_defs sampler_calls_def Let_def)
  have b1: "num_sampled_goals ?s1 < max_sampled_goals ?s1" using s1 by simp
  note i2 = three_per_call_iteration [OF s1(1,2,3) assms(2,3) b1]
  have s2: "length (states ?s2) = 3" "num_sampled_goals ?s2 = 3" "max_sampled_goals ?s2 = 5"
    "sample_goals ?s2" "sampler_calls ?s2 = 1"
    using i2 s1 by simp_all
  have b2: "num_sampled_goals ?s2 < max_sampled_goals ?s2" using s2 by simp
  note i3 = three_per_call_iteration [OF i2(1,2,3) assms(2,3) b2]
  have s3: "length (states ?s3) = 6" "num_sampled_goals ?s3 = 6" "max_sampled_goals ?s3 = 5"
    "\<not> sample_goals ?s3" "sampler_calls ?s3 = 2"
    using i3 s2 by simp_all
  have "max_sampled_goals ?s3 \<le> num_sampled_goals ?s3" using s3 by simp
  from idle_steps [OF i3(1,2,3) this, of si upd "Some f" n] obtain s' where s':
    "run si upd (Some f) (replicate n Thread) ?s3 = Inr s'"
    "states s' = states ?s3" "num_sampled_goals s' = num_sampled_goals ?s3"
    "max_sampled_goals s' = max_sampled_goals ?s3" "sample_goals s' = sample_goals ?s3"
    "sampler_calls s' = sampler_calls ?s3" "thread_pc s' = InLoop"
    by blast
  have "replicate (3 + n) Thread = Thread # Thread # Thread # replicate n (Thread :: 'a action)"
    by (simp add: numeral_3_eq_3)
  then have "run si upd (Some f) (replicate (3 + n) Thread) ?s0 = Inr s'"
    using s'(1) by simp
  then show ?thesis using s' s3 by simp
qed

theorem three_per_call_target_five_witness:
  "isSetup ex_si \<and> (\<exists>s. run ex_si ex_order ex_sampler (replicate (3 + 4) Thread) ex_started = Inr s \<and>
     length (states s) = 6 \<and> num_sampled_goals s = 6 \<and> \<not> sample_goals s \<and> sampler_calls s = 2)"
proof -
  have a: "isSetup ex_si" "\<forall>x. satisfiesBounds ex_si x \<and> isValid ex_si x"
    by (simp_all add: ex_si_def)
  have b: "\<forall>s :: nat samples_state. length ([1, 2, 3 :: nat]) = 3" by simp
  from three_per_call_target_five [OF a b, of ex_order 4 0]
  show ?thesis using a(1) by (auto simp: ex_sampler_def ex_started_def)
qed

text \<open>
  The store after the first pass (3 states, still sampling), after the second pass and
  one step later (6 states, not 5).
\<close>

theorem three_per_call_target_five_counterexample:
  "map_sum id (\<lambda>s. (length (states s), sample_goals s))
     (run ex_si ex_order ex_sampler [Thread, Thread] ex_started) = Inr (3, True) \<and>
   map_sum id (\<lambda>s. (length (states s), sample_goals s))
     (run ex_si ex_order ex_sampler [Thread, Thread, Thread] ex_started) = Inr (6, False) \<and>
   map_sum id (\<lambda>s. (length (states s), sample_goals s))
     (run ex_si ex_order ex_sampler [Thread, Thread, Thread, Thread] ex_started) = Inr (6, False)"
  by (simp add: ex_started_def ex_si_def ex_sampler_def thread_defs prim_defs Let_def)

subsection \<open>The flag and the counters\<close>

text \<open>
  The relation between the flag and the two counters, and the steps that preserve it.
\<close>

lemma thread_epilogue_frame:
  "sample_goals (thread_epilogue s) = sample_goals s \<and>
   max_sampled_goals (thread_epilogue s) = max_sampled_goals s \<and>
   num_sampled_goals (thread_epilogue s) = num_sampled_goals s"
  by (simp add: thread_epilogue_def prim_defs)

lemma begin_computation_frame:
  "sample_goals (begin_computation f s) = sample_goals s \<and>
   max_sampled_goals (begin_computation f s) = max_sampled_goals s \<and>
   num_sampled_goals (begin_computation f s) = num_sampled_goals s"
  by (simp add: begin_computation_def isSampling_result thread_epilogue_frame prim_defs)

lemma loop_iteration_paused:
  fixes s :: "'a samples_state"
  assumes "\<not> sample_goals s \<longrightarrow> max_sampled_goals s \<le> num_sampled_goals s"
  shows "\<not> sample_goals (loop_iteration si f s) \<longrightarrow>
     max_sampled_goals (loop_iteration si f s) \<le> num_sampled_goals (loop_iteration si f s)"
proof (cases "num_sampled_goals s < max_sampled_goals s")
  case False
  then show ?thesis using assms by (simp add: loop_iteration_def)
next
  case True
  then have "sample_goals s" using assms by auto
  with loop_iteration_result(3,4) [OF True, of si f] show ?thesis by auto
qed

lemma thread_step_paused:
  fixes s :: "'a samples_state"
  assumes "\<not> sample_goals s \<longrightarrow> max_sampled_goals s \<le> num_sampled_goals s"
  shows "\<not> sample_goals (thread_step si f s) \<longrightarrow>
     max_sampled_goals (thread_step si f s) \<le> num_sampled_goals (thread_step si f s)"
proof (cases "thread_pc s")
  case InLoop
  let ?s1 = "s\<lparr>trace := trace s @ [Acquire, Release]\<rparr>"
  have "\<not> sample_goals ?s1 \<longrightarrow> max_sampled_goals ?s1 \<le> num_sampled_goals ?s1"
    using assms by simp
  from loop_iteration_paused [OF this] show ?thesis
    using assms by (auto simp: thread_step_in_loop [OF InLoop] thread_epilogue_frame
        split: option.splits)
next
  case AtEntry
  then show ?thesis
    using assms by (simp add: thread_step_def begin_computation_frame prim_defs Let_def)
next
  case WaitForSetup
  then show ?thesis
    using assms by (simp add: thread_step_def begin_computation_frame)
qed (use assms in \<open>simp_all add: thread_step_def\<close>)

lemma run_thread_paused:
  fixes s :: "'a samples_state"
  assumes "\<not> sample_goals s \<longrightarrow> max_sampled_goals s \<le> num_sampled_goals s"
  shows "\<not> sample_goals (run_thread n si f s) \<longrightarrow>
     max_sampled_goals (run_thread n si f s) \<le> num_sampled_goals (run_thread n si f s)"
  using assms
proof (induction n arbitrary: s)
  case 0
  then show ?case by simp
next
  case (Suc n)
  from Suc.IH [OF thread_step_paused [OF Suc.prems]] Suc.prems show ?case by simp
qed

lemma penalize_paused:
  fixes s :: "'a samples_state"
  assumes "\<not> sample_goals s \<longrightarrow> max_sampled_goals s \<le> num_sampled_goals s"
    and "penalizeWeightedGoal upd g s = Inr s'"
  shows "\<not> sample_goals s' \<longrightarrow> max_sampled_goals s' \<le> num_sampled_goals s'"
proof -
  from assms(2) obtain e d where ed: "heap_element g = Some e" "heap_data s e = Some d"
    by (auto simp: penalizeWeightedGoal_def split: option.splits)
  let ?s2 = "BinaryHeap_update upd e
               (set_weight e (weight d / (weight d + 1)) (emit (Read WeightQueue) s))"
  show ?thesis
  proof (cases "weight d < 0.2 \<and> \<not> sample_goals ?s2")
    case False
    then have "s' = ?s2"
      using assms(2) ed by (auto simp: penalizeWeightedGoal_def Let_def split: if_splits)
    then show ?thesis using assms(1) by (simp add: prim_defs)
  next
    case True
    then obtain s4 where
      "s' = s4\<lparr>sample_goals := True, max_sampled_goals := max_sampled_goals s4 + 10\<rparr>"
      using assms(2) ed
      by (auto simp: penalizeWeightedGoal_def Let_def BinaryHeap_getContent_def
            split: if_splits sum.splits)
    then show ?thesis by simp
  qed
qed

lemma step_paused:
  fixes s :: "'a samples_state"
  assumes inv: "\<not> sample_goals s \<longrightarrow> max_sampled_goals s \<le> num_sampled_goals s"
    and st: "step si upd f a s = Inr s'"
  shows "\<not> sample_goals s' \<longrightarrow> max_sampled_goals s' \<le> num_sampled_goals s'"
proof (cases a)
  case Thread
  then show ?thesis using thread_step_paused [OF inv, of si f] st by auto
next
  case StartSampling
  then show ?thesis using inv st by (auto simp: startSampling_def prim_defs Let_def split: if_splits)
next
  case StopSampling
  let ?s2 = "unlock (if \<not> terminateSamplingThread (lock_guard s)
                     then (lock_guard s)\<lparr>terminateSamplingThread := True\<rparr> else lock_guard s)"
  have "\<not> sample_goals ?s2 \<longrightarrow> max_sampled_goals ?s2 \<le> num_sampled_goals ?s2"
    using inv by (simp add: prim_defs split: if_splits)
  from run_thread_paused [OF this, of 2 si f] this show ?thesis
    using st StopSampling by (auto simp: stopSampling_def Let_def split: if_splits)
next
  case Clear
  then show ?thesis using inv st by (auto simp: clear_def prim_defs)
next
  case (AddState x)
  then show ?thesis using inv st by (auto simp: addState_def prim_defs)
next
  case (AddStateIfDifferent x m)
  then show ?thesis
    using inv st
    by (auto simp: addStateIfDifferent_def GoalStates_distanceGoal_def prim_defs Let_def
          split: if_splits)
next
  case (SetNewStateCallback cb)
  then show ?thesis using inv st by (auto simp: setNewStateCallback_def)
next
  case (Penalize g)
  then show ?thesis using penalize_paused [OF inv] st by auto
next
  case (Reward g)
  then show ?thesis
    using inv st
    by (auto simp: rewardWeightedGoal_def prim_defs Let_def split: option.splits if_splits)
next
  case (SampleWeighted g)
  then show ?thesis
    using inv st
    by (auto simp: sampleWeightedGoal_def prim_defs Let_def map_sum_def
          split: option.splits if_splits list.splits sum.splits)
next
  case (SampleConsecutive g)
  then show ?thesis
    using inv st
    by (auto simp: sampleConsecutiveGoal_def GoalStates_sampleGoal_def prim_defs map_sum_def
          split: if_splits sum.splits)
next
  case SampleGoal
  then show ?thesis
    using inv st
    by (auto simp: sampleGoal_def GoalStates_sampleGoal_def prim_defs map_sum_def
          split: if_splits sum.splits)
next
  case (GetState i)
  then show ?thesis
    using inv st
    by (auto simp: getState_def GoalStates_getState_def prim_defs map_sum_def
          split: if_splits sum.splits)
next
  case HasStates
  then show ?thesis using inv st by (auto simp: hasStates_def GoalStates_hasStates_def prim_defs)
next
  case GetStateCount
  then show ?thesis
    using inv st by (auto simp: getStateCount_def GoalStates_getStateCount_def prim_defs)
next
  case MaxSampleCount
  then show ?thesis
    using inv st by (auto simp: maxSampleCount_def GoalStates_maxSampleCount_def prim_defs)
next
  case (DistanceGoal x)
  then show ?thesis
    using inv st by (auto simp: distanceGoal_def GoalStates_distanceGoal_def prim_defs)
qed

lemma run_paused:
  fixes s :: "'a samples_state"
  assumes "\<not> sample_goals s \<longrightarrow> max_sampled_goals s \<le> num_sampled_goals s"
    and "run si upd f acts s = Inr s'"
  shows "\<not> sample_goals s' \<longrightarrow> max_sampled_goals s' \<le> num_sampled_goals s'"
  using assms
proof (induction acts arbitrary: s)
  case Nil
  then show ?case by simp
next
  case (Cons a acts)
  from Cons.prems(2) obtain s1 where s1: "step si upd f a s = Inr s1" "run si upd f acts s1 = Inr s'"
    by (auto split: sum.splits)
  from Cons.IH [OF step_paused [OF Cons.prems(1) s1(1)] s1(2)] show ?case .
qed

text \<open>
  Claim C10. The constructor sets \<open>sample_goals_\<close>. Every run of thread steps and calls
  that starts in a state where \<open>sample_goals_\<close> false implies
  \<open>num_sampled_goals_ \<ge> max_sampled_goals_\<close> ends in such a state: the thread clears the
  flag only after it has found the counter at or above the target, and the region reset,
  which raises the target by 10, sets the flag. Hence in every state reached from the
  constructor, \<open>sample_goals_\<close> false implies \<open>num_sampled_goals_ \<ge> max_sampled_goals_\<close>.
\<close>

theorem paused_implies_target_reached:
  fixes s :: "'a samples_state"
  shows "sample_goals (WeightedGoalRegionSamples max_goals autoStart min_dist :: 'a samples_state) \<and>
     ((\<not> sample_goals s \<longrightarrow> max_sampled_goals s \<le> num_sampled_goals s) \<and>
      run si upd f acts s = Inr s' \<and> \<not> sample_goals s' \<longrightarrow>
        max_sampled_goals s' \<le> num_sampled_goals s') \<and>
     (\<forall>r. run si upd f acts (WeightedGoalRegionSamples max_goals autoStart min_dist) = Inr r \<and>
          \<not> sample_goals r \<longrightarrow> max_sampled_goals r \<le> num_sampled_goals r)"
proof -
  have init: "sample_goals (WeightedGoalRegionSamples max_goals autoStart min_dist :: 'a samples_state)"
    by (simp add: WeightedGoalRegionSamples_def startSampling_def prim_defs Let_def)
  have "max_sampled_goals r \<le> num_sampled_goals r"
    if "run si upd f acts (WeightedGoalRegionSamples max_goals autoStart min_dist) = Inr r"
      and "\<not> sample_goals r" for r
    using run_paused [OF _ that(1)] init that(2) by blast
  moreover have "max_sampled_goals s' \<le> num_sampled_goals s'"
    if "\<not> sample_goals s \<longrightarrow> max_sampled_goals s \<le> num_sampled_goals s"
      and "run si upd f acts s = Inr s'" and "\<not> sample_goals s'"
    using run_paused [OF that(1,2)] that(3) by blast
  ultimately show ?thesis using init by blast
qed

lemmas api_defs = addState_def clear_def penalizeWeightedGoal_def rewardWeightedGoal_def
  sampleWeightedGoal_def sampleConsecutiveGoal_def GoalStates_sampleGoal_def

theorem paused_implies_target_reached_witness:
  "\<not> sample_goals (ex_queue False) \<and>
   max_sampled_goals (ex_queue False) \<le> num_sampled_goals (ex_queue False) \<and>
   map_sum id observe (run ex_si ex_order ex_sampler [Penalize ex_goal] (ex_queue False)) =
     Inr (6, 6, 15, True, InLoop, False) \<and>
   map_sum id observe (run ex_si ex_order ex_sampler ex_run (ex_queue False)) =
     Inr (16, 15, 15, False, InLoop, False) \<and>
   (\<exists>s'. run ex_si ex_order ex_sampler ex_run (ex_queue False) = Inr s' \<and>
      \<not> sample_goals s' \<and> max_sampled_goals s' \<le> num_sampled_goals s')"
proof -
  have a: "\<not> sample_goals (ex_queue False)"
    "max_sampled_goals (ex_queue False) \<le> num_sampled_goals (ex_queue False)"
    by (simp_all add: ex_queue_def)
  have b: "map_sum id observe (run ex_si ex_order ex_sampler [Penalize ex_goal] (ex_queue False)) =
     Inr (6, 6, 15, True, InLoop, False)"
    by (simp add: ex_queue_def ex_goal_def ex_other_def ex_order_def observe_def api_defs
          prim_defs Let_def)
  have c: "map_sum id observe (run ex_si ex_order ex_sampler ex_run (ex_queue False)) =
     Inr (16, 15, 15, False, InLoop, False)"
    by (simp add: ex_run_def ex_queue_def ex_goal_def ex_other_def ex_order_def ex_si_def
          ex_sampler_def observe_def api_defs thread_defs prim_defs Let_def)
  then obtain s' where s': "run ex_si ex_order ex_sampler ex_run (ex_queue False) = Inr s'"
    "\<not> sample_goals s'"
    by (cases "run ex_si ex_order ex_sampler ex_run (ex_queue False)") (auto simp: observe_def)
  from paused_implies_target_reached [of _ _ _ "ex_queue False" ex_si ex_order ex_sampler ex_run s']
  have "max_sampled_goals s' \<le> num_sampled_goals s'" using a s' by blast
  then show ?thesis using a b c s' by blast
qed

subsection \<open>The two classes\<close>

text \<open>The shared view commutes with the operations of the base class, the heap and the mutex.\<close>

lemma shared_fields:
  "states (shared s) = states s" "samplePosition (shared s) = samplePosition s"
  "vector (shared s) = vector s" "heap_data (shared s) = heap_data s"
  "terminateSamplingThread (shared s) = terminateSamplingThread s"
  "samplingThread (shared s) = samplingThread s"
  "samplingAttempts (shared s) = samplingAttempts s" "minDist (shared s) = minDist s"
  "max_sampled_goals (shared s) = max_sampled_goals s" "sample_goals (shared s) = sample_goals s"
  "num_sampled_goals (shared s) = num_sampled_goals s" "callback (shared s) = callback s"
  "thread_pc (shared s) = thread_pc s" "trace (shared s) = trace s"
  by (simp_all add: shared_def samples_state.truncate_def)

lemma shared_updates:
  "shared (s\<lparr>states := a\<rparr>) = (shared s)\<lparr>states := a\<rparr>"
  "shared (s\<lparr>samplePosition := b\<rparr>) = (shared s)\<lparr>samplePosition := b\<rparr>"
  "shared (s\<lparr>vector := c\<rparr>) = (shared s)\<lparr>vector := c\<rparr>"
  "shared (s\<lparr>heap_data := d\<rparr>) = (shared s)\<lparr>heap_data := d\<rparr>"
  "shared (s\<lparr>terminateSamplingThread := e\<rparr>) = (shared s)\<lparr>terminateSamplingThread := e\<rparr>"
  "shared (s\<lparr>samplingThread := f\<rparr>) = (shared s)\<lparr>samplingThread := f\<rparr>"
  "shared (s\<lparr>samplingAttempts := g\<rparr>) = (shared s)\<lparr>samplingAttempts := g\<rparr>"
  "shared (s\<lparr>max_sampled_goals := h\<rparr>) = (shared s)\<lparr>max_sampled_goals := h\<rparr>"
  "shared (s\<lparr>sample_goals := i\<rparr>) = (shared s)\<lparr>sample_goals := i\<rparr>"
  "shared (s\<lparr>num_sampled_goals := j\<rparr>) = (shared s)\<lparr>num_sampled_goals := j\<rparr>"
  "shared (s\<lparr>callback := k\<rparr>) = (shared s)\<lparr>callback := k\<rparr>"
  "shared (s\<lparr>thread_pc := l\<rparr>) = (shared s)\<lparr>thread_pc := l\<rparr>"
  "shared (s\<lparr>trace := m\<rparr>) = (shared s)\<lparr>trace := m\<rparr>"
  "shared (s\<lparr>terminateGrowingRoadmapThread := n\<rparr>) = shared s"
  "shared (s\<lparr>growingRoadmapThread := p\<rparr>) = shared s"
  "shared (s\<lparr>roadmap_pc := q\<rparr>) = shared s"
  by (simp_all add: shared_def samples_state.truncate_def)

lemma shared_prims:
  "shared (emit ev s) = emit ev (shared s)"
  "shared (lock_guard s) = lock_guard (shared s)"
  "shared (unlock s) = unlock (shared s)"
  "shared (GoalStates_addState st s) = GoalStates_addState st (shared s)"
  "shared (GoalStates_clear s) = GoalStates_clear (shared s)"
  "shared (BinaryHeap_clear s) = BinaryHeap_clear (shared s)"
  "shared (BinaryHeap_update upd e s) = BinaryHeap_update upd e (shared s)"
  "shared (set_weight e w s) = set_weight e w (shared s)"
  by (simp_all add: prim_defs shared_updates shared_fields)

lemma roadmap_updates:
  "roadmap_members (s\<lparr>states := a\<rparr>) = roadmap_members s"
  "roadmap_members (s\<lparr>samplePosition := b\<rparr>) = roadmap_members s"
  "roadmap_members (s\<lparr>vector := c\<rparr>) = roadmap_members s"
  "roadmap_members (s\<lparr>heap_data := d\<rparr>) = roadmap_members s"
  "roadmap_members (s\<lparr>terminateSamplingThread := e\<rparr>) = roadmap_members s"
  "roadmap_members (s\<lparr>samplingThread := f\<rparr>) = roadmap_members s"
  "roadmap_members (s\<lparr>samplingAttempts := g\<rparr>) = roadmap_members s"
  "roadmap_members (s\<lparr>max_sampled_goals := h\<rparr>) = roadmap_members s"
  "roadmap_members (s\<lparr>sample_goals := i\<rparr>) = roadmap_members s"
  "roadmap_members (s\<lparr>num_sampled_goals := j\<rparr>) = roadmap_members s"
  "roadmap_members (s\<lparr>callback := k\<rparr>) = roadmap_members s"
  "roadmap_members (s\<lparr>thread_pc := l\<rparr>) = roadmap_members s"
  "roadmap_members (s\<lparr>trace := m\<rparr>) = roadmap_members s"
  by (simp_all add: roadmap_members_def)

lemma roadmap_prims:
  "roadmap_members (emit ev s) = roadmap_members s"
  "roadmap_members (lock_guard s) = roadmap_members s"
  "roadmap_members (unlock s) = roadmap_members s"
  "roadmap_members (GoalStates_addState st s) = roadmap_members s"
  "roadmap_members (GoalStates_clear s) = roadmap_members s"
  "roadmap_members (BinaryHeap_clear s) = roadmap_members s"
  "roadmap_members (BinaryHeap_update upd e s) = roadmap_members s"
  "roadmap_members (set_weight e w s) = roadmap_members s"
  by (simp_all add: prim_defs roadmap_members_def)

lemma Sampler_add_sampled_states_shared:
  "map_prod id shared (Sampler_add_sampled_states si xs (b, s)) =
     add_sampled_states si xs (b, shared s) \<and>
   roadmap_members (snd (Sampler_add_sampled_states si xs (b, s))) = roadmap_members s"
proof (induction xs arbitrary: b s)
  case Nil
  then show ?case by simp
next
  case (Cons x xs)
  show ?case
  proof (cases "satisfiesBounds si x \<and> isValid si x")
    case True
    let ?s1 = "unlock (GoalStates_addState x
                 (lock_guard (s\<lparr>num_sampled_goals := num_sampled_goals s + 1\<rparr>)))"
    have "shared ?s1 = unlock (GoalStates_addState x
            (lock_guard ((shared s)\<lparr>num_sampled_goals := num_sampled_goals (shared s) + 1\<rparr>)))"
      by (simp add: shared_prims shared_updates shared_fields)
    moreover have "roadmap_members ?s1 = roadmap_members s"
      by (simp add: roadmap_prims roadmap_updates)
    ultimately show ?thesis using Cons.IH [of True ?s1] True by simp
  next
    case False
    then show ?thesis using Cons.IH [of b s] by auto
  qed
qed

lemma Sampler_loop_iteration_shared:
  "shared (Sampler_loop_iteration si (\<lambda>s. f (shared s)) s) = loop_iteration si f (shared s) \<and>
   roadmap_members (Sampler_loop_iteration si (\<lambda>s. f (shared s)) s) = roadmap_members s"
proof -
  obtain b1 s1 where s1:
    "Sampler_add_sampled_states si (f (shared s)) (False, emit SamplerCall s) = (b1, s1)"
    by (cases "Sampler_add_sampled_states si (f (shared s)) (False, emit SamplerCall s)") auto
  from Sampler_add_sampled_states_shared [of si "f (shared s)" False "emit SamplerCall s"]
  have a: "add_sampled_states si (f (shared s)) (False, emit SamplerCall (shared s)) = (b1, shared s1)"
    and r: "roadmap_members s1 = roadmap_members s"
    by (simp_all add: s1 shared_prims roadmap_prims)
  show ?thesis
    by (simp add: Sampler_loop_iteration_def loop_iteration_def s1 a r roadmap_updates Let_def
          shared_fields shared_updates)
qed

lemma Sampler_isSampling_shared:
  "map_prod id shared (Sampler_isSampling s) = isSampling (shared s) \<and>
   roadmap_members (snd (Sampler_isSampling s)) = roadmap_members s"
  by (simp add: Sampler_isSampling_def isSampling_def Let_def prim_defs shared_fields
        shared_updates roadmap_updates)

lemma Sampler_thread_epilogue_shared:
  "shared (Sampler_thread_epilogue s) = thread_epilogue (shared s) \<and>
   roadmap_members (Sampler_thread_epilogue s) = roadmap_members s"
  by (simp add: Sampler_thread_epilogue_def thread_epilogue_def shared_prims shared_updates
        roadmap_prims roadmap_updates)

lemma lift_sampler_None: "lift_sampler f = None \<longleftrightarrow> f = None"
  by (simp add: lift_sampler_def)

lemma Sampler_begin_computation_shared:
  "shared (Sampler_begin_computation (lift_sampler f) s) = begin_computation f (shared s) \<and>
   roadmap_members (Sampler_begin_computation (lift_sampler f) s) = roadmap_members s"
proof -
  obtain b s1 where s1: "Sampler_isSampling s = (b, s1)"
    by (cases "Sampler_isSampling s") auto
  from Sampler_isSampling_shared [of s] have a: "isSampling (shared s) = (b, shared s1)"
    and r: "roadmap_members s1 = roadmap_members s"
    by (simp_all add: s1)
  show ?thesis
    using Sampler_thread_epilogue_shared [of "emit Warn s1"]
    by (auto simp: Sampler_begin_computation_def begin_computation_def s1 a r lift_sampler_None
          shared_prims shared_updates roadmap_prims roadmap_updates)
qed

lemma Sampler_thread_step_shared:
  "shared (Sampler_thread_step si (lift_sampler f) s) = thread_step si f (shared s) \<and>
   roadmap_members (Sampler_thread_step si (lift_sampler f) s) = roadmap_members s"
proof (cases "thread_pc s")
  case InLoop
  obtain b s1 where s1: "Sampler_isSampling s = (b, s1)"
    by (cases "Sampler_isSampling s") auto
  from Sampler_isSampling_shared [of s] have a: "isSampling (shared s) = (b, shared s1)"
    and r: "roadmap_members s1 = roadmap_members s"
    by (simp_all add: s1)
  show ?thesis
  proof (cases f)
    case None
    then show ?thesis
      using InLoop Sampler_thread_epilogue_shared [of s1]
      by (simp add: Sampler_thread_step_def thread_step_def s1 a r lift_sampler_def shared_fields)
  next
    case (Some g)
    then show ?thesis
      using InLoop Sampler_thread_epilogue_shared [of s1] Sampler_loop_iteration_shared [of si g s1]
      by (simp add: Sampler_thread_step_def thread_step_def s1 a r lift_sampler_def shared_fields)
  qed
next
  case AtEntry
  then show ?thesis
    using Sampler_begin_computation_shared [of f "unlock (lock_guard s)"]
    by (simp add: Sampler_thread_step_def thread_step_def Let_def shared_fields shared_prims
          shared_updates roadmap_prims roadmap_updates)
next
  case WaitForSetup
  then show ?thesis
    using Sampler_begin_computation_shared [of f s]
    by (simp add: Sampler_thread_step_def thread_step_def shared_fields)
qed (simp_all add: Sampler_thread_step_def thread_step_def shared_fields)

lemma Sampler_run_thread_shared:
  "shared (Sampler_run_thread n si (lift_sampler f) s) = run_thread n si f (shared s) \<and>
   roadmap_members (Sampler_run_thread n si (lift_sampler f) s) = roadmap_members s"
proof (induction n arbitrary: s)
  case 0
  then show ?case by simp
next
  case (Suc n)
  from Suc.IH [of "Sampler_thread_step si (lift_sampler f) s"] Sampler_thread_step_shared [of si f s]
  show ?case by (simp add: shared_fields)
qed

lemma Sampler_reset_weights_shared:
  "map_sum id shared (Sampler_reset_weights upd gs s) = reset_weights upd gs (shared s) \<and>
   (\<forall>s'. Sampler_reset_weights upd gs s = Inr s' \<longrightarrow> roadmap_members s' = roadmap_members s)"
proof (induction gs arbitrary: s)
  case Nil
  then show ?case by simp
next
  case (Cons g gs)
  show ?case
    using Cons.IH [of "BinaryHeap_update upd e (set_weight e 0.5 s)" for e]
    by (auto simp: shared_fields shared_prims roadmap_prims split: option.splits)
qed

lemmas shared_simps = shared_fields shared_updates roadmap_updates

lemma Sampler_start_stop_shared:
  "shared (Sampler_startSampling s) = startSampling (shared s)"
  "roadmap_members (Sampler_startSampling s) = roadmap_members s"
  "shared (Sampler_stopSampling si (lift_sampler f) s) = stopSampling si f (shared s)"
  "roadmap_members (Sampler_stopSampling si (lift_sampler f) s) = roadmap_members s"
proof -
  show "shared (Sampler_startSampling s) = startSampling (shared s)"
    and "roadmap_members (Sampler_startSampling s) = roadmap_members s"
    by (simp_all add: Sampler_startSampling_def startSampling_def Let_def prim_defs shared_simps)
  let ?s2 = "unlock (if \<not> terminateSamplingThread (lock_guard s)
                     then (lock_guard s)\<lparr>terminateSamplingThread := True\<rparr> else lock_guard s)"
  let ?t2 = "unlock (if \<not> terminateSamplingThread (lock_guard (shared s))
                     then (lock_guard (shared s))\<lparr>terminateSamplingThread := True\<rparr>
                     else lock_guard (shared s))"
  have a: "shared ?s2 = ?t2" "roadmap_members ?s2 = roadmap_members s"
    "samplingThread ?s2 = samplingThread ?t2"
    by (simp_all add: prim_defs shared_simps)
  from Sampler_run_thread_shared [of 2 si f ?s2]
  show "shared (Sampler_stopSampling si (lift_sampler f) s) = stopSampling si f (shared s)"
    and "roadmap_members (Sampler_stopSampling si (lift_sampler f) s) = roadmap_members s"
    unfolding Sampler_stopSampling_def stopSampling_def Let_def
    by (simp_all add: a shared_simps)
qed

lemma Sampler_constructor_shared:
  "shared (WeightedGoalRegionSampler max_goals autoStart min_dist) =
     WeightedGoalRegionSamples max_goals autoStart min_dist"
  "roadmap_members (WeightedGoalRegionSampler max_goals autoStart min_dist) =
     (False, False, NoThread)"
  by (simp_all add: WeightedGoalRegionSampler_def WeightedGoalRegionSamples_def Let_def
        Sampler_start_stop_shared)
     (simp_all add: shared_def samples_state.truncate_def roadmap_members_def)

lemma Sampler_store_shared:
  "shared (Sampler_clear s) = clear (shared s)"
  "roadmap_members (Sampler_clear s) = roadmap_members s"
  "shared (Sampler_addState st s) = addState st (shared s)"
  "roadmap_members (Sampler_addState st s) = roadmap_members s"
  "shared (Sampler_setNewStateCallback cb s) = setNewStateCallback cb (shared s)"
  "roadmap_members (Sampler_setNewStateCallback cb s) = roadmap_members s"
  "map_prod id shared (Sampler_addStateIfDifferent si st m s) = addStateIfDifferent si st m (shared s)"
  "roadmap_members (snd (Sampler_addStateIfDifferent si st m s)) = roadmap_members s"
  by (simp_all add: Sampler_clear_def clear_def Sampler_addState_def addState_def
        Sampler_setNewStateCallback_def setNewStateCallback_def
        Sampler_addStateIfDifferent_def addStateIfDifferent_def GoalStates_distanceGoal_def
        Let_def prim_defs shared_simps)

lemma Sampler_readers_shared:
  "map_prod id shared (Sampler_distanceGoal si st s) = distanceGoal si st (shared s)"
  "map_sum id (map_prod id shared) (Sampler_sampleGoal s) = sampleGoal (shared s)"
  "map_sum id (map_prod id shared) (Sampler_getState i s) = getState i (shared s)"
  "map_prod id shared (Sampler_hasStates s) = hasStates (shared s)"
  "map_prod id shared (Sampler_getStateCount s) = getStateCount (shared s)"
  "map_prod id shared (Sampler_maxSampleCount s) = maxSampleCount (shared s)"
  by (simp_all add: Sampler_distanceGoal_def distanceGoal_def Sampler_sampleGoal_def sampleGoal_def
        Sampler_getState_def getState_def Sampler_hasStates_def hasStates_def
        Sampler_getStateCount_def getStateCount_def Sampler_maxSampleCount_def maxSampleCount_def
        GoalStates_distanceGoal_def GoalStates_sampleGoal_def GoalStates_getState_def
        GoalStates_hasStates_def GoalStates_getStateCount_def GoalStates_maxSampleCount_def
        Let_def prim_defs shared_simps)

lemma Sampler_penalize_shared:
  "map_sum id shared (Sampler_penalizeWeightedGoal upd g s) = penalizeWeightedGoal upd g (shared s)"
  "\<forall>s'. Sampler_penalizeWeightedGoal upd g s = Inr s' \<longrightarrow> roadmap_members s' = roadmap_members s"
proof -
  have main: "map_sum id shared (Sampler_penalizeWeightedGoal upd g s) =
        penalizeWeightedGoal upd g (shared s) \<and>
      (\<forall>s'. Sampler_penalizeWeightedGoal upd g s = Inr s' \<longrightarrow> roadmap_members s' = roadmap_members s)"
  proof (cases "heap_element g")
    case None
    then show ?thesis
      by (simp add: Sampler_penalizeWeightedGoal_def penalizeWeightedGoal_def)
  next
    case (Some e)
    show ?thesis
    proof (cases "heap_data s e")
      case None
      then show ?thesis
        using Some by (simp add: Sampler_penalizeWeightedGoal_def penalizeWeightedGoal_def shared_simps)
    next
      case (Some d)
      let ?s2 = "BinaryHeap_update upd e
                   (set_weight e (weight d / (weight d + 1)) (emit (Read WeightQueue) s))"
      let ?t2 = "BinaryHeap_update upd e
                   (set_weight e (weight d / (weight d + 1)) (emit (Read WeightQueue) (shared s)))"
      have a: "shared ?s2 = ?t2" "roadmap_members ?s2 = roadmap_members s"
        "sample_goals ?s2 = sample_goals ?t2" "vector ?s2 = vector ?t2"
        by (simp_all add: shared_prims roadmap_prims) (simp_all add: prim_defs shared_simps)
      have b: "shared (emit (Read WeightQueue) ?s2) = emit (Read WeightQueue) ?t2"
        "roadmap_members (emit (Read WeightQueue) ?s2) = roadmap_members s"
        using a by (simp_all add: shared_prims roadmap_prims)
      from Sampler_reset_weights_shared [of upd "vector ?t2" "emit (Read WeightQueue) ?s2"]
      have r: "map_sum id shared (Sampler_reset_weights upd (vector ?t2) (emit (Read WeightQueue) ?s2)) =
            reset_weights upd (vector ?t2) (emit (Read WeightQueue) ?t2)"
        "\<forall>s'. Sampler_reset_weights upd (vector ?t2) (emit (Read WeightQueue) ?s2) = Inr s' \<longrightarrow>
            roadmap_members s' = roadmap_members s"
        unfolding b by simp_all
      show ?thesis
      proof (cases "Sampler_reset_weights upd (vector ?t2) (emit (Read WeightQueue) ?s2)")
        case (Inl err)
        then have "reset_weights upd (vector ?t2) (emit (Read WeightQueue) ?t2) = Inl err"
          using r(1) by simp
        then show ?thesis
          using \<open>heap_element g = Some e\<close> Some Inl a
          by (simp add: Sampler_penalizeWeightedGoal_def penalizeWeightedGoal_def Let_def
                BinaryHeap_getContent_def shared_fields)
      next
        case (Inr s4)
        then have "reset_weights upd (vector ?t2) (emit (Read WeightQueue) ?t2) = Inr (shared s4)"
          and "roadmap_members s4 = roadmap_members s"
          using r by simp_all
        then show ?thesis
          using \<open>heap_element g = Some e\<close> Some Inr a
          by (simp add: Sampler_penalizeWeightedGoal_def penalizeWeightedGoal_def Let_def
                BinaryHeap_getContent_def shared_simps)
      qed
    qed
  qed
  from main show "map_sum id shared (Sampler_penalizeWeightedGoal upd g s) =
      penalizeWeightedGoal upd g (shared s)" by simp
  from main show "\<forall>s'. Sampler_penalizeWeightedGoal upd g s = Inr s' \<longrightarrow>
      roadmap_members s' = roadmap_members s" by simp
qed

lemma Sampler_selection_shared:
  "map_sum id shared (Sampler_rewardWeightedGoal upd g s) = rewardWeightedGoal upd g (shared s)"
  "\<forall>s'. Sampler_rewardWeightedGoal upd g s = Inr s' \<longrightarrow> roadmap_members s' = roadmap_members s"
  "map_sum id (map_prod id shared) (Sampler_sampleWeightedGoal g s) = sampleWeightedGoal g (shared s)"
  "\<forall>g' s'. Sampler_sampleWeightedGoal g s = Inr (g', s') \<longrightarrow> roadmap_members s' = roadmap_members s"
  "map_sum id (map_prod id shared) (Sampler_sampleConsecutiveGoal g s) =
     sampleConsecutiveGoal g (shared s)"
  "\<forall>g' s'. Sampler_sampleConsecutiveGoal g s = Inr (g', s') \<longrightarrow> roadmap_members s' = roadmap_members s"
  by (auto simp: Sampler_rewardWeightedGoal_def rewardWeightedGoal_def
        Sampler_sampleWeightedGoal_def sampleWeightedGoal_def
        Sampler_sampleConsecutiveGoal_def sampleConsecutiveGoal_def GoalStates_sampleGoal_def
        Let_def prim_defs shared_simps split: option.splits list.splits if_splits)

lemma roadmap_worker_shared:
  "shared (startGrowingRoadmap s) = (shared s)\<lparr>trace := trace s @ [Acquire, Release]\<rparr>"
  "\<exists>evs. shared (roadmap_step s) = (shared s)\<lparr>trace := trace s @ evs\<rparr> \<and>
         set evs \<subseteq> {Acquire, Release, GrowRoadmap}"
  "\<exists>evs. shared (stopGrowingRoadmap s) = (shared s)\<lparr>trace := trace s @ evs\<rparr> \<and>
         set evs \<subseteq> {Acquire, Release, GrowRoadmap}"
proof -
  show "shared (startGrowingRoadmap s) = (shared s)\<lparr>trace := trace s @ [Acquire, Release]\<rparr>"
    by (simp add: startGrowingRoadmap_def Let_def prim_defs shared_simps)
  have step: "\<exists>evs. shared (roadmap_step s) = (shared s)\<lparr>trace := trace s @ evs\<rparr> \<and>
         set evs \<subseteq> {Acquire, Release, GrowRoadmap}" for s :: "'a sampler_state"
  proof (cases "roadmap_pc s = InLoop")
    case False
    then have "roadmap_step s = s" by (cases "roadmap_pc s") (simp_all add: roadmap_step_def)
    then have "shared (roadmap_step s) = (shared s)\<lparr>trace := trace s @ []\<rparr>"
      by (simp add: shared_def samples_state.truncate_def)
    then show ?thesis by (intro exI [of _ "[]"]) simp
  next
    case True
    show ?thesis
    proof (cases "\<not> terminateGrowingRoadmapThread s \<and> growingRoadmapThread s")
      case True
      with \<open>roadmap_pc s = InLoop\<close>
      have "shared (roadmap_step s) = (shared s)\<lparr>trace := trace s @ [Acquire, Release, GrowRoadmap]\<rparr>"
        by (simp add: roadmap_step_def isGrowingRoadmap_def Let_def prim_defs shared_simps)
      then show ?thesis by (intro exI [of _ "[Acquire, Release, GrowRoadmap]"]) simp
    next
      case False
      with \<open>roadmap_pc s = InLoop\<close>
      have "shared (roadmap_step s) = (shared s)\<lparr>trace := trace s @ [Acquire, Release, Acquire, Release]\<rparr>"
        by (auto simp: roadmap_step_def isGrowingRoadmap_def Let_def prim_defs shared_simps)
      then show ?thesis by (intro exI [of _ "[Acquire, Release, Acquire, Release]"]) simp
    qed
  qed
  show "\<exists>evs. shared (roadmap_step s) = (shared s)\<lparr>trace := trace s @ evs\<rparr> \<and>
         set evs \<subseteq> {Acquire, Release, GrowRoadmap}"
    by (rule step)
  let ?s2 = "unlock (if \<not> terminateGrowingRoadmapThread (lock_guard s)
                     then (lock_guard s)\<lparr>terminateGrowingRoadmapThread := True\<rparr> else lock_guard s)"
  have s2: "shared ?s2 = (shared s)\<lparr>trace := trace s @ [Acquire, Release]\<rparr>"
    "trace ?s2 = trace s @ [Acquire, Release]"
    by (simp_all add: prim_defs shared_simps)
  from step [of ?s2] obtain evs where evs:
    "shared (roadmap_step ?s2) = (shared ?s2)\<lparr>trace := trace ?s2 @ evs\<rparr>"
    "set evs \<subseteq> {Acquire, Release, GrowRoadmap}" by blast
  show "\<exists>evs. shared (stopGrowingRoadmap s) = (shared s)\<lparr>trace := trace s @ evs\<rparr> \<and>
         set evs \<subseteq> {Acquire, Release, GrowRoadmap}"
  proof (cases "growingRoadmapThread ?s2")
    case False
    then have "shared (stopGrowingRoadmap s) = (shared s)\<lparr>trace := trace s @ [Acquire, Release]\<rparr>"
      using s2(1) by (simp add: stopGrowingRoadmap_def Let_def)
    then show ?thesis by (intro exI [of _ "[Acquire, Release]"]) simp
  next
    case True
    then have "shared (stopGrowingRoadmap s) =
        (shared s)\<lparr>trace := trace s @ ([Acquire, Release] @ evs)\<rparr>"
      using evs(1) s2 by (simp add: stopGrowingRoadmap_def Let_def shared_simps)
    then show ?thesis using evs(2) by (intro exI [of _ "[Acquire, Release] @ evs"]) simp
  qed
qed

text \<open>
  Claim C9. Seen through the members the two classes share, the constructor, the step
  of the sampling thread (entry, wait and loop), \<open>startSampling\<close>, \<open>stopSampling\<close>, \<open>clear\<close>,
  \<open>addStateIfDifferent\<close>, \<open>penalizeWeightedGoal\<close>, \<open>rewardWeightedGoal\<close>,
  \<open>sampleWeightedGoal\<close> and \<open>sampleConsecutiveGoal\<close> of \<open>WeightedGoalRegionSampler\<close> return
  what the functions of \<open>WeightedGoalRegionSamples\<close> return and update the state as they
  do, and they leave the members of the roadmap thread as they are. The functions of
  the roadmap thread change, among the shared members, only the trace, by events of the
  mutex and calls of \<open>growRoadmap\<close>.
\<close>

theorem classes_agree:
  fixes s :: "'a sampler_state"
  shows
    "shared (WeightedGoalRegionSampler max_goals autoStart min_dist) =
       WeightedGoalRegionSamples max_goals autoStart min_dist \<and>
     shared (Sampler_startSampling s) = startSampling (shared s) \<and>
     shared (Sampler_stopSampling si (lift_sampler f) s) = stopSampling si f (shared s) \<and>
     shared (Sampler_thread_step si (lift_sampler f) s) = thread_step si f (shared s) \<and>
     shared (Sampler_clear s) = clear (shared s) \<and>
     map_prod id shared (Sampler_addStateIfDifferent si st m s) =
       addStateIfDifferent si st m (shared s) \<and>
     map_sum id shared (Sampler_penalizeWeightedGoal upd g s) =
       penalizeWeightedGoal upd g (shared s) \<and>
     map_sum id shared (Sampler_rewardWeightedGoal upd g s) =
       rewardWeightedGoal upd g (shared s) \<and>
     map_sum id (map_prod id shared) (Sampler_sampleWeightedGoal g s) =
       sampleWeightedGoal g (shared s) \<and>
     map_sum id (map_prod id shared) (Sampler_sampleConsecutiveGoal g s) =
       sampleConsecutiveGoal g (shared s) \<and>
     roadmap_members (Sampler_startSampling s) = roadmap_members s \<and>
     roadmap_members (Sampler_stopSampling si (lift_sampler f) s) = roadmap_members s \<and>
     roadmap_members (Sampler_thread_step si (lift_sampler f) s) = roadmap_members s \<and>
     roadmap_members (Sampler_clear s) = roadmap_members s \<and>
     roadmap_members (snd (Sampler_addStateIfDifferent si st m s)) = roadmap_members s \<and>
     map_sum id roadmap_members (Sampler_penalizeWeightedGoal upd g s) =
       map_sum id (\<lambda>r. roadmap_members s) (Sampler_penalizeWeightedGoal upd g s) \<and>
     map_sum id roadmap_members (Sampler_rewardWeightedGoal upd g s) =
       map_sum id (\<lambda>r. roadmap_members s) (Sampler_rewardWeightedGoal upd g s) \<and>
     map_sum id (roadmap_members \<circ> snd) (Sampler_sampleWeightedGoal g s) =
       map_sum id (\<lambda>r. roadmap_members s) (Sampler_sampleWeightedGoal g s) \<and>
     map_sum id (roadmap_members \<circ> snd) (Sampler_sampleConsecutiveGoal g s) =
       map_sum id (\<lambda>r. roadmap_members s) (Sampler_sampleConsecutiveGoal g s) \<and>
     shared (startGrowingRoadmap s) = (shared s)\<lparr>trace := trace s @ [Acquire, Release]\<rparr> \<and>
     (\<exists>evs. shared (roadmap_step s) = (shared s)\<lparr>trace := trace s @ evs\<rparr> \<and>
            set evs \<subseteq> {Acquire, Release, GrowRoadmap}) \<and>
     (\<exists>evs. shared (stopGrowingRoadmap s) = (shared s)\<lparr>trace := trace s @ evs\<rparr> \<and>
            set evs \<subseteq> {Acquire, Release, GrowRoadmap})"
proof -
  have p: "map_sum id roadmap_members (Sampler_penalizeWeightedGoal upd g s) =
       map_sum id (\<lambda>r. roadmap_members s) (Sampler_penalizeWeightedGoal upd g s)"
    using Sampler_penalize_shared(2) [of upd g s]
    by (cases "Sampler_penalizeWeightedGoal upd g s") simp_all
  have r: "map_sum id roadmap_members (Sampler_rewardWeightedGoal upd g s) =
       map_sum id (\<lambda>r. roadmap_members s) (Sampler_rewardWeightedGoal upd g s)"
    using Sampler_selection_shared(2) [of upd g s]
    by (cases "Sampler_rewardWeightedGoal upd g s") simp_all
  have w: "map_sum id (roadmap_members \<circ> snd) (Sampler_sampleWeightedGoal g s) =
       map_sum id (\<lambda>r. roadmap_members s) (Sampler_sampleWeightedGoal g s)"
    using Sampler_selection_shared(4) [of g s]
    by (cases "Sampler_sampleWeightedGoal g s") auto
  have c: "map_sum id (roadmap_members \<circ> snd) (Sampler_sampleConsecutiveGoal g s) =
       map_sum id (\<lambda>r. roadmap_members s) (Sampler_sampleConsecutiveGoal g s)"
    using Sampler_selection_shared(6) [of g s]
    by (cases "Sampler_sampleConsecutiveGoal g s") auto
  note facts = Sampler_constructor_shared(1) Sampler_start_stop_shared
    Sampler_thread_step_shared Sampler_store_shared(1,2,7,8) Sampler_penalize_shared(1)
    Sampler_selection_shared(1,3,5) roadmap_worker_shared
  show ?thesis
    by (intro conjI) (simp_all only: facts p r w c)
qed

text \<open>
  The region reset and the weighted selection on the paused object of the second class,
  and a step of its sampling thread.
\<close>

theorem classes_agree_witness:
  "shared ex_sampler_queue = ex_queue False \<and>
   roadmap_members ex_sampler_queue = (False, True, InLoop) \<and>
   map_sum id (observe \<circ> shared)
     (Sampler_penalizeWeightedGoal ex_order ex_goal ex_sampler_queue) =
     Inr (6, 6, 15, True, InLoop, False) \<and>
   map_sum id roadmap_members
     (Sampler_penalizeWeightedGoal ex_order ex_goal ex_sampler_queue) =
     Inr (False, True, InLoop) \<and>
   map_sum id (fst) (Sampler_sampleWeightedGoal ex_other ex_sampler_queue) = Inr ex_goal \<and>
   shared (Sampler_thread_step ex_si (lift_sampler ex_sampler) ex_sampler_state) =
     thread_step ex_si ex_sampler (shared ex_sampler_state) \<and>
   thread_pc (thread_step ex_si ex_sampler (shared ex_sampler_state)) = InLoop"
proof -
  have q: "shared ex_sampler_queue = ex_queue False"
    "roadmap_members ex_sampler_queue = (False, True, InLoop)"
    by (simp_all add: ex_sampler_queue_def ex_queue_def shared_def samples_state.truncate_def
          roadmap_members_def)
  have p: "map_sum id observe (penalizeWeightedGoal ex_order ex_goal (ex_queue False)) =
      Inr (6, 6, 15, True, InLoop, False)"
    by (simp add: ex_queue_def ex_goal_def ex_other_def ex_order_def observe_def api_defs
          prim_defs Let_def)
  have w: "map_sum id fst (sampleWeightedGoal ex_other (ex_queue False)) = Inr ex_goal"
    by (simp add: sampleWeightedGoal_def ex_queue_def ex_goal_def ex_other_def prim_defs)
  have a: "shared ex_sampler_state =
      (WeightedGoalRegionSamples 5 True 0)\<lparr>trace := [Acquire, Release, Acquire, Release]\<rparr>"
    by (simp add: ex_sampler_state_def startGrowingRoadmap_def WeightedGoalRegionSampler_def
          WeightedGoalRegionSamples_def Sampler_startSampling_def startSampling_def Let_def
          prim_defs shared_def samples_state.truncate_def)
  have b: "thread_pc (thread_step ex_si ex_sampler (shared ex_sampler_state)) = InLoop"
    unfolding a by (simp add: thread_defs ex_si_def ex_sampler_def prim_defs Let_def)
  note i = classes_agree [where s = ex_sampler_queue and si = ex_si and f = ex_sampler
      and upd = ex_order and g = ex_goal and max_goals = 5 and autoStart = True and min_dist = 0
      and st = 7 and m = 1]
  note j = classes_agree [where s = ex_sampler_queue and si = ex_si and f = ex_sampler
      and upd = ex_order and g = ex_other and max_goals = 5 and autoStart = True and min_dist = 0
      and st = 7 and m = 1]
  note k = classes_agree [where s = ex_sampler_state and si = ex_si and f = ex_sampler
      and upd = ex_order and g = ex_goal and max_goals = 5 and autoStart = True and min_dist = 0
      and st = 7 and m = 1]
  have 1: "map_sum id shared (Sampler_penalizeWeightedGoal ex_order ex_goal ex_sampler_queue) =
      penalizeWeightedGoal ex_order ex_goal (ex_queue False)"
    using i unfolding q by blast
  have 2: "map_sum id roadmap_members (Sampler_penalizeWeightedGoal ex_order ex_goal ex_sampler_queue) =
      map_sum id (\<lambda>r. (False, True, InLoop))
        (Sampler_penalizeWeightedGoal ex_order ex_goal ex_sampler_queue)"
    using i unfolding q by blast
  have 3: "map_sum id (map_prod id shared) (Sampler_sampleWeightedGoal ex_other ex_sampler_queue) =
      sampleWeightedGoal ex_other (ex_queue False)"
    using j unfolding q by blast
  have 4: "shared (Sampler_thread_step ex_si (lift_sampler ex_sampler) ex_sampler_state) =
      thread_step ex_si ex_sampler (shared ex_sampler_state)"
    using k by blast
  have 5: "map_sum id (observe \<circ> shared)
     (Sampler_penalizeWeightedGoal ex_order ex_goal ex_sampler_queue) =
     Inr (6, 6, 15, True, InLoop, False)"
    using p unfolding 1 [symmetric]
    by (cases "Sampler_penalizeWeightedGoal ex_order ex_goal ex_sampler_queue") auto
  have 6: "map_sum id roadmap_members
     (Sampler_penalizeWeightedGoal ex_order ex_goal ex_sampler_queue) = Inr (False, True, InLoop)"
    using 2 5 by (cases "Sampler_penalizeWeightedGoal ex_order ex_goal ex_sampler_queue") auto
  have 7: "map_sum id fst (Sampler_sampleWeightedGoal ex_other ex_sampler_queue) = Inr ex_goal"
    using w unfolding 3 [symmetric]
    by (cases "Sampler_sampleWeightedGoal ex_other ex_sampler_queue") auto
  show ?thesis using q 4 5 6 7 b by simp
qed

end
